theory Spec2Isabelle
  imports Main
begin

section \<open>JavaScript strings\<close>

text \<open>
  A JavaScript string is modelled as a HOL \<open>string\<close>: one \<open>char\<close> per code unit. The
  code below only compares code units with ASCII characters and counts them, so the
  model is exact for every URL whose code units are below 256.

  \<open>includes_str s sub\<close> is \<^verbatim>\<open>s.includes(sub)\<close>, and \<open>split_first sep s\<close> is
  \<^verbatim>\<open>s.split(sep)[0]\<close> for a non-empty separator: the text in front of the first
  occurrence of \<open>sep\<close>, or all of \<open>s\<close> when there is none.
\<close>

definition starts_with :: "string \<Rightarrow> string \<Rightarrow> bool" where
  "starts_with s p = (take (length p) s = p)"

fun includes_str :: "string \<Rightarrow> string \<Rightarrow> bool" where
  "includes_str [] sub = (sub = [])"
| "includes_str (c # cs) sub = (starts_with (c # cs) sub \<or> includes_str cs sub)"

fun split_first :: "string \<Rightarrow> string \<Rightarrow> string" where
  "split_first sep [] = []"
| "split_first sep (c # cs) =
     (if starts_with (c # cs) sep then [] else c # split_first sep cs)"

text \<open>
  \<^verbatim>\<open>a || b\<close> on strings that may be \<^verbatim>\<open>null\<close> or \<^verbatim>\<open>undefined\<close>: the empty string, \<^verbatim>\<open>null\<close>
  and \<^verbatim>\<open>undefined\<close> are falsy.
\<close>

definition truthy :: "string option \<Rightarrow> bool" where
  "truthy v = (case v of None \<Rightarrow> False | Some s \<Rightarrow> s \<noteq> [])"

definition or_else :: "string option \<Rightarrow> string \<Rightarrow> string" where
  "or_else v d = (case v of None \<Rightarrow> d | Some s \<Rightarrow> if s = [] then d else s)"

section \<open>Regular expressions\<close>

text \<open>
  The part of the JavaScript regular-expression language that the sources use, with
  the backtracking semantics of the language: alternatives are tried left to right,
  \<^verbatim>\<open>*\<close>, \<^verbatim>\<open>+\<close> and \<^verbatim>\<open>?\<close> are greedy, an iteration of \<^verbatim>\<open>*\<close> that consumes nothing is
  rejected, \<^verbatim>\<open>.\<close> matches everything but a line terminator, \<^verbatim>\<open>^\<close> and \<^verbatim>\<open>$\<close> match at
  the two ends of the input (no flag is used anywhere in the sources).
  The matcher is written with a continuation: \<open>m r k st\<close> matches \<open>r\<close> at \<open>st\<close> and hands
  the state behind the match to \<open>k\<close>; when \<open>k\<close> fails the matcher backtracks.
\<close>

datatype re =
    Lit string
  | Dot
  | Word
  | Space
  | OneOf string
  | NoneOf string
  | Cat re re
  | Alt re re
  | Star re
  | Plus re
  | Opt re
  | Grp nat re
  | Bol
  | Eol

type_synonym captures = "(nat \<times> string) list"

record mstate =
  pos :: nat
  rest :: string
  caps :: captures

definition one :: "(char \<Rightarrow> bool) \<Rightarrow> (mstate \<Rightarrow> captures option) \<Rightarrow> mstate \<Rightarrow> captures option" where
  "one p k st =
     (case rest st of
        [] \<Rightarrow> None
      | c # cs \<Rightarrow> if p c then k (st\<lparr>pos := Suc (pos st), rest := cs\<rparr>) else None)"

definition is_word :: "char \<Rightarrow> bool" where
  "is_word c = (c \<in> set ''abcdefghijklmnopqrstuvwxyzABCDEFGHIJKLMNOPQRSTUVWXYZ0123456789_'')"

definition is_space :: "char \<Rightarrow> bool" where
  "is_space c = (c \<in> set [CHR '' '', CHR 0x09, CHR 0x0A, CHR 0x0B, CHR 0x0C, CHR 0x0D, CHR 0xA0])"

definition is_line_terminator :: "char \<Rightarrow> bool" where
  "is_line_terminator c = (c = CHR 0x0A \<or> c = CHR 0x0D)"

primrec star_iter ::
  "nat \<Rightarrow> ((mstate \<Rightarrow> captures option) \<Rightarrow> mstate \<Rightarrow> captures option) \<Rightarrow>
   (mstate \<Rightarrow> captures option) \<Rightarrow> mstate \<Rightarrow> captures option" where
  "star_iter 0 f k st = k st"
| "star_iter (Suc n) f k st =
     (case f (\<lambda>st'. if length (rest st') < length (rest st) then star_iter n f k st' else None) st of
        Some r \<Rightarrow> Some r
      | None \<Rightarrow> k st)"

primrec m :: "re \<Rightarrow> (mstate \<Rightarrow> captures option) \<Rightarrow> mstate \<Rightarrow> captures option" where
  "m (Lit l) k st =
     (if starts_with (rest st) l
      then k (st\<lparr>pos := pos st + length l, rest := drop (length l) (rest st)\<rparr>)
      else None)"
| "m Dot k st = one (\<lambda>c. \<not> is_line_terminator c) k st"
| "m Word k st = one is_word k st"
| "m Space k st = one is_space k st"
| "m (OneOf cs) k st = one (\<lambda>c. c \<in> set cs) k st"
| "m (NoneOf cs) k st = one (\<lambda>c. c \<notin> set cs) k st"
| "m (Cat a b) k st = m a (m b k) st"
| "m (Alt a b) k st = (case m a k st of Some r \<Rightarrow> Some r | None \<Rightarrow> m b k st)"
| "m (Star a) k st = star_iter (length (rest st)) (m a) k st"
| "m (Plus a) k st = m a (\<lambda>st'. star_iter (length (rest st')) (m a) k st') st"
| "m (Opt a) k st = (case m a k st of Some r \<Rightarrow> Some r | None \<Rightarrow> k st)"
| "m (Grp i a) k st =
     m a (\<lambda>st'. k (st'\<lparr>caps := (i, take (length (rest st) - length (rest st')) (rest st)) # caps st'\<rparr>)) st"
| "m Bol k st = (if pos st = 0 then k st else None)"
| "m Eol k st = (if rest st = [] then k st else None)"

text \<open>
  \<^verbatim>\<open>s.match(r)\<close> for a regular expression without the global flag: the first start
  position, from the left, at which \<open>r\<close> matches. \<open>group i\<close> reads \<^verbatim>\<open>match[i]\<close>.
\<close>

fun search :: "re \<Rightarrow> nat \<Rightarrow> string \<Rightarrow> captures option" where
  "search r p [] = m r (\<lambda>st. Some (caps st)) \<lparr>pos = p, rest = [], caps = []\<rparr>"
| "search r p (c # cs) =
     (case m r (\<lambda>st. Some (caps st)) \<lparr>pos = p, rest = c # cs, caps = []\<rparr> of
        Some r' \<Rightarrow> Some r'
      | None \<Rightarrow> search r (Suc p) cs)"

definition match :: "string \<Rightarrow> re \<Rightarrow> captures option" where
  "match s r = search r 0 s"

definition group :: "nat \<Rightarrow> captures \<Rightarrow> string option" where
  "group i cs = map_of cs i"

definition seq :: "re list \<Rightarrow> re" where
  "seq rs = foldr Cat rs (Lit [])"

definition alts :: "re \<Rightarrow> re list \<Rightarrow> re" where
  "alts r rs = foldl Alt r rs"

section \<open>Media descriptors\<close>

datatype media_type = image | video | audio | other

record MediaItem =
  url :: string
  type :: media_type
  filename :: string
  size :: "string option"
  dimensions :: "string option"
  thumbnail :: "string option"

section \<open>Video-ID extraction\<close>

text \<open>
  Both extractors clean the URL in the same way (\<^verbatim>\<open>url.split('#')[0].split('?si=')[0]\<close>)
  and walk a list of patterns with the same loop: the first pattern whose first
  capture group has 10 or 11 characters gives the ID.
\<close>

definition cleanUrl :: "string \<Rightarrow> string" where
  "cleanUrl u = split_first ''?si='' (split_first ''#'' u)"

definition accepted :: "string option \<Rightarrow> bool" where
  "accepted g = (case g of None \<Rightarrow> False | Some s \<Rightarrow> s \<noteq> [] \<and> (length s = 11 \<or> length s = 10))"

definition capture1 :: "string \<Rightarrow> re \<Rightarrow> string option" where
  "capture1 s r = (case match s r of None \<Rightarrow> None | Some cs \<Rightarrow> group 1 cs)"

fun first_accepted :: "re list \<Rightarrow> string \<Rightarrow> string option" where
  "first_accepted [] s = None"
| "first_accepted (r # rs) s =
     (if accepted (capture1 s r) then capture1 s r else first_accepted rs s)"

text \<open>The four patterns of \<^verbatim>\<open>MediaDetectionService.extractYouTubeId\<close>, in its order.\<close>

definition detector_patterns :: "re list" where
  "detector_patterns =
    [ seq [Lit ''youtu.be/'', Grp 1 (Plus (NoneOf ''/''))],
      seq [Lit ''youtube.com/watch?v='', Grp 1 (Plus (NoneOf ''/&''))],
      seq [Lit ''youtube.com/embed/'', Grp 1 (Plus (NoneOf ''/''))],
      seq [Lit ''youtube.com/v/'', Grp 1 (Plus (NoneOf ''/''))] ]"

text \<open>\<^verbatim>\<open>MediaDetectionService.extractYouTubeId\<close>: \<open>None\<close> is the \<^verbatim>\<open>null\<close> it returns.\<close>

definition detector_extractYouTubeId :: "string \<Rightarrow> string option" where
  "detector_extractYouTubeId u = first_accepted detector_patterns (cleanUrl u)"

text \<open>
  The eleven patterns of \<^verbatim>\<open>DownloadService.extractYouTubeId\<close>, in its order, and its
  fallback pattern. The fallback is written as in the source: its first alternative
  has an unescaped dot, and several alternatives are repeated.
\<close>

definition download_patterns :: "re list" where
  "download_patterns =
    [ seq [Lit ''youtu.be/'', Grp 1 (Plus (NoneOf ''/''))],
      seq [Lit ''youtube.com/watch?v='', Grp 1 (Plus (NoneOf ''/&''))],
      seq [Lit ''youtube.com/embed/'', Grp 1 (Plus (NoneOf ''/''))],
      seq [Lit ''youtube.com/v/'', Grp 1 (Plus (NoneOf ''/''))],
      seq [Lit ''youtube.com/shorts/'', Grp 1 (Plus (NoneOf ''/''))],
      seq [Lit ''youtube.com/watch?'', Star Dot, Lit ''v='', Grp 1 (Plus (NoneOf ''/&''))],
      seq [Lit ''m.youtube.com/watch?v='', Grp 1 (Plus (NoneOf ''/&''))],
      seq [Lit ''youtube.com/embed/'', Grp 1 (Plus (NoneOf ''/''))],
      seq [Lit ''youtube-nocookie.com/embed/'', Grp 1 (Plus (NoneOf ''/''))],
      seq [Lit ''youtube.com/live/'', Grp 1 (Plus (NoneOf ''/''))],
      seq [Lit ''youtube.com/c/'', Plus (NoneOf ''/''), Lit ''/videos/'', Grp 1 (Plus (NoneOf ''/''))] ]"

definition fallback_pattern :: re where
  "fallback_pattern =
     seq [ Bol, Star Dot,
           Grp 1 (alts (seq [Lit ''youtu'', Dot, Lit ''be/''])
             [ Lit ''v/'', seq [Lit ''u/'', Word, Lit ''/''], Lit ''embed/'', Lit ''watch?v='',
               Lit ''&v='', Lit ''/videos/'', Lit ''/embed/'', Lit ''/v/'', Lit ''/e/'',
               Lit ''watch?v='', Lit ''?v='', Lit ''&v='', Lit ''embed?v='', Lit ''/v/'',
               Lit ''/e/'', Lit ''watch?v='', Lit ''?v='', Lit ''&v='' ]),
           Grp 2 (Star (NoneOf ''#&?'')),
           Star Dot ]"

text \<open>
  \<^verbatim>\<open>DownloadService.extractYouTubeId\<close>. A thrown \<^verbatim>\<open>Error\<close> is the left summand and
  carries the message.
\<close>

definition capture2 :: "string \<Rightarrow> re \<Rightarrow> string option" where
  "capture2 s r = (case match s r of None \<Rightarrow> None | Some cs \<Rightarrow> group 2 cs)"

definition extractYouTubeId :: "string \<Rightarrow> string + string" where
  "extractYouTubeId u =
     (case first_accepted download_patterns (cleanUrl u) of
        Some i \<Rightarrow> Inr i
      | None \<Rightarrow>
          (let fallbackMatch2 = capture2 (cleanUrl u) fallback_pattern;
               result = (case fallbackMatch2 of
                           None \<Rightarrow> []
                         | Some g \<Rightarrow> if accepted fallbackMatch2 then g else [])
           in if result = [] then Inl (''Could not extract YouTube ID from URL: '' @ u)
              else Inr result))"

section \<open>The browser\<close>

text \<open>
  What the code asks of the browser is a parameter of the model. The network answers
  a request depending on everything that happened before (the list of events so
  far), so any deterministic network is covered. \<^verbatim>\<open>fetch\<close> either rejects
  (\<open>NetErr\<close> with the message of the error) or resolves with a response; reading the
  body of a response as text, JSON or a blob may reject too. Of a JSON value only
  what the code reads is kept: \<^verbatim>\<open>null\<close> (reading a property of it throws) or an
  object with string-valued properties.
  \<^verbatim>\<open>new URL(...)\<close>, \<^verbatim>\<open>DOMParser\<close> and \<^verbatim>\<open>encodeURIComponent\<close> are functions of the
  browser as well; \<open>None\<close> stands for a thrown exception.
\<close>

type_synonym blob = string

datatype json = JNull | JObj "(string \<times> string) list"

record response =
  ok :: bool
  status :: nat
  statusText :: string
  content_type :: "string option"
  text_body :: "string + string"
  json_body :: "string + json"
  blob_body :: "string + blob"

datatype fetch_outcome = NetErr string | Resp response

datatype request =
    Get string
  | GetNoCors string
  | PostJson string "(string \<times> string) list"

datatype event =
    Fetch request
  | SaveAs blob string
  | Trying nat
  | Succeeded nat
  | ServiceFailed nat string
  | AnchorClick string string
  | WindowOpen string

record img_element =
  img_src :: "string option"
  img_data_src :: "string option"
  naturalWidth :: nat
  naturalHeight :: nat

record video_element =
  video_src :: "string option"
  sources :: "string option list"

text \<open>
  A parsed page, as the four extraction functions see it: the \<^verbatim>\<open>img\<close>, \<^verbatim>\<open>video\<close> (with
  their \<^verbatim>\<open>source\<close> children), \<^verbatim>\<open>iframe\<close> and \<^verbatim>\<open>audio\<close> elements with the attributes that
  are read, and the \<^verbatim>\<open>style\<close> attribute of every element selected by
  \<^verbatim>\<open>[style*="background"]\<close>, all in document order.
\<close>

record document =
  imgs :: "img_element list"
  videos :: "video_element list"
  iframes :: "string option list"
  audios :: "string option list"
  styled :: "string option list"

record browser =
  net :: "event list \<Rightarrow> request \<Rightarrow> fetch_outcome"
  encodeURIComponent :: "string \<Rightarrow> string"
  parseFromString :: "string \<Rightarrow> document"
  URL_href :: "string \<Rightarrow> string \<Rightarrow> string option"
  URL_pathname :: "string \<Rightarrow> string option"
  anchor_throws :: "event list \<Rightarrow> bool"

text \<open>A number in a template literal: its decimal digits.\<close>

fun decimal :: "nat \<Rightarrow> string" where
  "decimal n =
     (if n < 10 then [''0123456789'' ! n] else decimal (n div 10) @ [''0123456789'' ! (n mod 10)])"

declare decimal.simps [simp del]

section \<open>MediaDetectionService\<close>

definition CORS_PROXY :: string where
  "CORS_PROXY = ''https://api.allorigins.win/raw?url=''"

definition media_item :: "string \<Rightarrow> media_type \<Rightarrow> string \<Rightarrow> MediaItem" where
  "media_item u t f =
     \<lparr>url = u, type = t, filename = f, size = None, dimensions = None, thumbnail = None\<rparr>"

definition resolveUrl :: "browser \<Rightarrow> string \<Rightarrow> string \<Rightarrow> string" where
  "resolveUrl b u baseUrl = (case URL_href b u baseUrl of None \<Rightarrow> u | Some h \<Rightarrow> h)"

text \<open>\<^verbatim>\<open>pathname.split('/').pop()\<close>: the text behind the last slash.\<close>

definition last_segment :: "string \<Rightarrow> string" where
  "last_segment p = rev (takeWhile (\<lambda>c. c \<noteq> CHR ''/'') (rev p))"

definition extractFilename :: "browser \<Rightarrow> string \<Rightarrow> string" where
  "extractFilename b u =
     (case URL_pathname b u of
        None \<Rightarrow> ''file''
      | Some pathname \<Rightarrow> or_else (Some (split_first ''.'' (last_segment pathname))) ''file'')"

definition extension_pattern :: re where
  "extension_pattern = seq [Lit ''.'', Grp 1 (Plus (NoneOf ''.'')), Eol]"

definition getFileExtension :: "browser \<Rightarrow> string \<Rightarrow> string option" where
  "getFileExtension b u =
     (case URL_pathname b u of
        None \<Rightarrow> None
      | Some pathname \<Rightarrow> capture1 pathname extension_pattern)"

definition named :: "browser \<Rightarrow> string \<Rightarrow> string \<Rightarrow> string \<Rightarrow> string" where
  "named b u dflt_name dflt_ext =
     or_else (Some (extractFilename b u)) dflt_name @ ''.'' @ or_else (getFileExtension b u) dflt_ext"

text \<open>
  Each extraction function walks the elements of one kind in document order and
  pushes at most one item per element; the body of each \<^verbatim>\<open>forEach\<close> is a function of
  its own here.
\<close>

definition image_from_img :: "browser \<Rightarrow> string \<Rightarrow> img_element \<Rightarrow> MediaItem list" where
  "image_from_img b baseUrl img =
     (case (if truthy (img_src img) then img_src img else img_data_src img) of
        None \<Rightarrow> []
      | Some src \<Rightarrow>
          if src = [] then []
          else
            (let absoluteUrl = resolveUrl b src baseUrl
             in [ (media_item absoluteUrl image (named b absoluteUrl ''image'' ''jpg''))
                  \<lparr> dimensions :=
                      (if naturalWidth img \<noteq> 0 \<and> naturalHeight img \<noteq> 0
                       then Some (decimal (naturalWidth img) @ ''x'' @ decimal (naturalHeight img))
                       else None),
                    thumbnail := Some absoluteUrl \<rparr> ]))"

definition extractImages :: "browser \<Rightarrow> document \<Rightarrow> string \<Rightarrow> MediaItem list" where
  "extractImages b doc baseUrl = concat (map (image_from_img b baseUrl) (imgs doc))"

definition video_from_src :: "browser \<Rightarrow> string \<Rightarrow> string option \<Rightarrow> MediaItem list" where
  "video_from_src b baseUrl a =
     (case a of
        None \<Rightarrow> []
      | Some src \<Rightarrow>
          if src = [] then []
          else (let absoluteUrl = resolveUrl b src baseUrl
                in [media_item absoluteUrl video (named b absoluteUrl ''video'' ''mp4'')]))"

definition video_from_element :: "browser \<Rightarrow> string \<Rightarrow> video_element \<Rightarrow> MediaItem list" where
  "video_from_element b baseUrl v =
     video_from_src b baseUrl (video_src v) @ concat (map (video_from_src b baseUrl) (sources v))"

definition video_from_iframe :: "browser \<Rightarrow> string option \<Rightarrow> MediaItem list" where
  "video_from_iframe b a =
     (case a of
        None \<Rightarrow> []
      | Some src \<Rightarrow>
          if src \<noteq> [] \<and> (includes_str src ''youtube.com'' \<or> includes_str src ''vimeo.com'')
          then [media_item src video
                  (or_else (Some (extractFilename b src)) ''embedded-video'' @ ''.mp4'')]
          else [])"

definition extractVideos :: "browser \<Rightarrow> document \<Rightarrow> string \<Rightarrow> MediaItem list" where
  "extractVideos b doc baseUrl =
     concat (map (video_from_element b baseUrl) (videos doc))
     @ concat (map (video_from_iframe b) (iframes doc))"

definition audio_from_src :: "browser \<Rightarrow> string \<Rightarrow> string option \<Rightarrow> MediaItem list" where
  "audio_from_src b baseUrl a =
     (case a of
        None \<Rightarrow> []
      | Some src \<Rightarrow>
          if src = [] then []
          else (let absoluteUrl = resolveUrl b src baseUrl
                in [media_item absoluteUrl audio (named b absoluteUrl ''audio'' ''mp3'')]))"

definition extractAudio :: "browser \<Rightarrow> document \<Rightarrow> string \<Rightarrow> MediaItem list" where
  "extractAudio b doc baseUrl = concat (map (audio_from_src b baseUrl) (audios doc))"

definition background_pattern :: re where
  "background_pattern =
     seq [ Lit ''background-image:'', Star Space, Lit ''url('',
           Opt (OneOf [CHR 0x27, CHR 0x22]),
           Grp 1 (Plus (NoneOf [CHR 0x27, CHR 0x22])),
           Opt (OneOf [CHR 0x27, CHR 0x22]), Lit '')'' ]"

definition image_from_style :: "browser \<Rightarrow> string \<Rightarrow> string option \<Rightarrow> MediaItem list" where
  "image_from_style b baseUrl a =
     (case match (or_else a []) background_pattern of
        None \<Rightarrow> []
      | Some bgImageMatch \<Rightarrow>
          (let u = resolveUrl b (case group 1 bgImageMatch of None \<Rightarrow> ''undefined'' | Some g \<Rightarrow> g)
                     baseUrl
           in [ (media_item u image (named b u ''background'' ''jpg'')) \<lparr> thumbnail := Some u \<rparr> ]))"

definition extractCSSMedia :: "browser \<Rightarrow> document \<Rightarrow> string \<Rightarrow> MediaItem list" where
  "extractCSSMedia b doc baseUrl = concat (map (image_from_style b baseUrl) (styled doc))"

definition getSampleMediaItems :: "MediaItem list" where
  "getSampleMediaItems =
    [ \<lparr> url = ''https://images.unsplash.com/photo-1649972904349-6e44c42644a7'', type = image,
        filename = ''sample-image-1.jpg'', size = Some ''2.4 MB'', dimensions = Some ''1920x1080'',
        thumbnail = Some ''https://images.unsplash.com/photo-1649972904349-6e44c42644a7?w=400'' \<rparr>,
      \<lparr> url = ''https://images.unsplash.com/photo-1488590528505-98d2b5aba04b'', type = image,
        filename = ''sample-image-2.jpg'', size = Some ''1.8 MB'', dimensions = Some ''1600x900'',
        thumbnail = Some ''https://images.unsplash.com/photo-1488590528505-98d2b5aba04b?w=400'' \<rparr>,
      \<lparr> url = ''https://sample-videos.com/zip/10/mp4/SampleVideo_1280x720_1mb.mp4'', type = video,
        filename = ''sample-video.mp4'', size = Some ''1.0 MB'', dimensions = Some ''1280x720'',
        thumbnail = None \<rparr>,
      \<lparr> url = ''https://www.soundjay.com/misc/sounds/bell-ringing-05.wav'', type = audio,
        filename = ''sample-audio.wav'', size = Some ''0.5 MB'', dimensions = None,
        thumbnail = None \<rparr>,
      \<lparr> url = ''https://images.unsplash.com/photo-1516245834210-c4c142787335'', type = image,
        filename = ''sample-image-3.jpg'', size = Some ''3.2 MB'', dimensions = Some ''1800x1200'',
        thumbnail = Some ''https://images.unsplash.com/photo-1516245834210-c4c142787335?w=400'' \<rparr> ]"

definition handleYouTubeUrl :: "string \<Rightarrow> MediaItem list" where
  "handleYouTubeUrl u =
     (let videoId = detector_extractYouTubeId u;
          filename = (if truthy videoId then ''youtube_'' @ or_else videoId [] else ''youtube_video'')
      in [ (media_item u video (filename @ ''.mp4''))
           \<lparr> thumbnail :=
               (if truthy videoId
                then Some (''https://img.youtube.com/vi/'' @ or_else videoId [] @ ''/maxresdefault.jpg'')
                else None) \<rparr> ])"

text \<open>
  \<^verbatim>\<open>self.findIndex(p)\<close> (\<open>None\<close> is the \<open>-1\<close> of JavaScript, which no index equals) and
  the filter of \<^verbatim>\<open>detectMedia\<close> that keeps an item when its index is the first index
  with its URL.
\<close>

fun findIndex :: "('a \<Rightarrow> bool) \<Rightarrow> 'a list \<Rightarrow> nat option" where
  "findIndex p [] = None"
| "findIndex p (x # xs) =
     (if p x then Some 0 else map_option Suc (findIndex p xs))"

definition uniqueMedia :: "MediaItem list \<Rightarrow> MediaItem list" where
  "uniqueMedia mediaItems =
     map snd (filter (\<lambda>(index, item). Some index = findIndex (\<lambda>t. url t = url item) mediaItems)
                     (enumerate 0 mediaItems))"

text \<open>
  The body of the \<^verbatim>\<open>try\<close> block of \<^verbatim>\<open>detectMedia\<close>: the HTML of the page, or the message
  of the exception.
\<close>

definition fetch_html :: "browser \<Rightarrow> event list \<Rightarrow> string \<Rightarrow> string + string" where
  "fetch_html b log u =
     (case net b log (Get (CORS_PROXY @ encodeURIComponent b u)) of
        NetErr e \<Rightarrow> Inl e
      | Resp r \<Rightarrow>
          if \<not> ok r then Inl (''Failed to fetch webpage: '' @ decimal (status r))
          else if (case content_type r of None \<Rightarrow> False
                   | Some ct \<Rightarrow> includes_str ct ''application/json'')
          then (case json_body r of
                  Inl e \<Rightarrow> Inl e
                | Inr JNull \<Rightarrow> Inl ''Cannot read properties of null (reading 'contents')''
                | Inr (JObj kv) \<Rightarrow>
                    Inr (case map_of kv ''contents'' of None \<Rightarrow> ''undefined'' | Some c \<Rightarrow> c))
          else text_body r)"

definition detectMedia :: "browser \<Rightarrow> event list \<Rightarrow> string \<Rightarrow> MediaItem list \<times> event list" where
  "detectMedia b log u =
     (if includes_str u ''youtube.com'' \<or> includes_str u ''youtu.be''
      then (handleYouTubeUrl u, log)
      else
        (case fetch_html b log u of
           Inl e \<Rightarrow> (getSampleMediaItems, log @ [Fetch (Get (CORS_PROXY @ encodeURIComponent b u))])
         | Inr htmlContent \<Rightarrow>
             (let doc = parseFromString b htmlContent;
                  mediaItems = extractImages b doc u @ extractVideos b doc u
                               @ extractAudio b doc u @ extractCSSMedia b doc u
              in (uniqueMedia mediaItems,
                  log @ [Fetch (Get (CORS_PROXY @ encodeURIComponent b u))]))))"

text \<open>
  What the code guarantees of a file name: the text behind its last dot is not
  empty and something stands in front of that dot. A file name ends in a file
  extension when, moreover, that text names no directory: it contains no slash.
\<close>

definition dot_suffix :: "string \<Rightarrow> string" where
  "dot_suffix f = rev (takeWhile (\<lambda>c. c \<noteq> CHR ''.'') (rev f))"

definition has_dot_suffix :: "string \<Rightarrow> bool" where
  "has_dot_suffix f = (dot_suffix f \<noteq> [] \<and> Suc (length (dot_suffix f)) < length f)"

definition ends_in_file_extension :: "string \<Rightarrow> bool" where
  "ends_in_file_extension f = (has_dot_suffix f \<and> CHR ''/'' \<notin> set (dot_suffix f))"

text \<open>
  A small page for concrete runs: two \<^verbatim>\<open>img\<close> elements with the same source and one
  \<^verbatim>\<open>video\<close> element, served as HTML by a network that answers every request.
\<close>

definition example_response :: response where
  "example_response =
     \<lparr> ok = True, status = 200, statusText = ''OK'', content_type = Some ''text/html'',
       text_body = Inr ''<img src=a.png><img src=a.png><video src=v>'',
       json_body = Inl ''Unexpected token <'', blob_body = Inr ''bytes'' \<rparr>"

definition example_document :: document where
  "example_document =
     \<lparr> imgs = [ \<lparr>img_src = Some ''a.png'', img_data_src = None, naturalWidth = 0, naturalHeight = 0\<rparr>,
                \<lparr>img_src = Some ''a.png'', img_data_src = None, naturalWidth = 0, naturalHeight = 0\<rparr> ],
       videos = [ \<lparr>video_src = Some ''v'', sources = []\<rparr> ],
       iframes = [], audios = [], styled = [] \<rparr>"

definition example_browser :: browser where
  "example_browser =
     \<lparr> net = (\<lambda>log req. Resp example_response),
       encodeURIComponent = (\<lambda>s. s),
       parseFromString = (\<lambda>html. example_document),
       URL_href = (\<lambda>u baseUrl. Some (''https://example.com/'' @ u)),
       URL_pathname = (\<lambda>u. Some (drop 19 u)),
       anchor_throws = (\<lambda>log. False) \<rparr>"

text \<open>
  A page with one \<^verbatim>\<open>img\<close> element whose source has a dot in a directory name and none
  in its last segment.
\<close>

definition versioned_path_browser :: browser where
  "versioned_path_browser =
     \<lparr> net = (\<lambda>log req. Resp example_response),
       encodeURIComponent = (\<lambda>s. s),
       parseFromString = (\<lambda>html.
         \<lparr> imgs = [ \<lparr>img_src = Some ''v1.2/avatar'', img_data_src = None,
                      naturalWidth = 0, naturalHeight = 0\<rparr> ],
           videos = [], iframes = [], audios = [], styled = [] \<rparr>),
       URL_href = (\<lambda>u baseUrl. Some (''https://example.com/'' @ u)),
       URL_pathname = (\<lambda>u. Some (drop 19 u)),
       anchor_throws = (\<lambda>log. False) \<rparr>"

section \<open>DownloadService\<close>

text \<open>
  An \<^verbatim>\<open>async\<close> function is a function from the events so far to its outcome and the
  events after it. The outcome \<open>Inl msg\<close> is a rejected promise (a thrown \<^verbatim>\<open>Error\<close> with
  that message), \<open>Inr ()\<close> a resolved one. \<^verbatim>\<open>saveAs\<close> and \<^verbatim>\<open>window.open\<close> are recorded as
  events and do not throw; the three \<^verbatim>\<open>console.log\<close> lines of the service loop are
  recorded as \<open>Trying\<close>, \<open>Succeeded\<close> and \<open>ServiceFailed\<close>, other console output is
  left out.
\<close>

type_synonym outcome = "(string + unit) \<times> event list"

definition createDownloadLink :: "browser \<Rightarrow> string \<Rightarrow> string \<Rightarrow> event list \<Rightarrow> event list" where
  "createDownloadLink b u fname log =
     (if anchor_throws b log then log @ [WindowOpen u] else log @ [AnchorClick u fname])"

text \<open>The \<^verbatim>\<open>catch\<close> block of \<^verbatim>\<open>downloadDirectMedia\<close>.\<close>

definition direct_fallback :: "browser \<Rightarrow> MediaItem \<Rightarrow> event list \<Rightarrow> outcome" where
  "direct_fallback b item log =
     (let log1 = log @ [Fetch (GetNoCors (url item))]
      in case net b log (GetNoCors (url item)) of
           NetErr e \<Rightarrow> (Inr (), createDownloadLink b (url item) (filename item) log1)
         | Resp r \<Rightarrow>
             (case blob_body r of
                Inl e \<Rightarrow> (Inr (), createDownloadLink b (url item) (filename item) log1)
              | Inr blob \<Rightarrow> (Inr (), log1 @ [SaveAs blob (filename item)])))"

definition downloadDirectMedia :: "browser \<Rightarrow> MediaItem \<Rightarrow> event list \<Rightarrow> outcome" where
  "downloadDirectMedia b item log =
     (let proxyUrl = ''https://api.allorigins.win/raw?url='' @ encodeURIComponent b (url item);
          log1 = log @ [Fetch (Get proxyUrl)]
      in case net b log (Get proxyUrl) of
           NetErr e \<Rightarrow> direct_fallback b item log1
         | Resp r \<Rightarrow>
             if \<not> ok r then direct_fallback b item log1
             else (case blob_body r of
                     Inl e \<Rightarrow> direct_fallback b item log1
                   | Inr blob \<Rightarrow> (Inr (), log1 @ [SaveAs blob (filename item)])))"

definition downloadBlobVideo :: "browser \<Rightarrow> MediaItem \<Rightarrow> event list \<Rightarrow> outcome" where
  "downloadBlobVideo b item log =
     (let log1 = log @ [Fetch (Get (url item))]
      in case net b log (Get (url item)) of
           NetErr e \<Rightarrow> (Inl e, log1)
         | Resp r \<Rightarrow>
             (case blob_body r of
                Inl e \<Rightarrow> (Inl e, log1)
              | Inr blob \<Rightarrow> (Inr (), log1 @ [SaveAs blob (filename item)])))"

text \<open>Service 1 of \<^verbatim>\<open>downloadYouTubeVideo\<close>: the local backend.\<close>

definition service1 :: "browser \<Rightarrow> MediaItem \<Rightarrow> event list \<Rightarrow> outcome" where
  "service1 b item log =
     (let req = PostJson ''/api/download-youtube''
                  [(''url'', url item), (''filename'', filename item)];
          log1 = log @ [Fetch req]
      in case net b log req of
           NetErr e \<Rightarrow> (Inl e, log1)
         | Resp r \<Rightarrow>
             if \<not> ok r then
               (case (case json_body r of
                        Inl e \<Rightarrow> JObj [(''error'', ''Unknown error'')]
                      | Inr j \<Rightarrow> j) of
                  JNull \<Rightarrow> (Inl ''Cannot read properties of null (reading 'error')'', log1)
                | JObj errorData \<Rightarrow>
                    (Inl (''Backend download failed: ''
                          @ or_else (map_of errorData ''error'') (statusText r)), log1))
             else (case blob_body r of
                     Inl e \<Rightarrow> (Inl e, log1)
                   | Inr blob \<Rightarrow> (Inr (), log1 @ [SaveAs blob (filename item)])))"

text \<open>
  Services 2 and 3 are the same code up to the address of the service and the
  property of the JSON answer that holds the address of the file.
\<close>

definition web_service :: "string \<Rightarrow> string \<Rightarrow> browser \<Rightarrow> MediaItem \<Rightarrow> event list \<Rightarrow> outcome" where
  "web_service endpoint field b item log =
     (let req = Get (endpoint @ encodeURIComponent b (url item));
          log1 = log @ [Fetch req]
      in case net b log req of
           NetErr e \<Rightarrow> (Inl e, log1)
         | Resp r \<Rightarrow>
             if \<not> ok r then (Inl (''Service failed: '' @ decimal (status r)), log1)
             else
               (case json_body r of
                  Inl e \<Rightarrow> (Inl e, log1)
                | Inr JNull \<Rightarrow>
                    (Inl (''Cannot read properties of null (reading '' @ [CHR 0x27] @ field
                          @ [CHR 0x27] @ '')''), log1)
                | Inr (JObj result) \<Rightarrow>
                    if truthy (map_of result field) then
                      (let target = Get (or_else (map_of result field) []);
                           log2 = log1 @ [Fetch target]
                       in case net b log1 target of
                            NetErr e \<Rightarrow> (Inl e, log2)
                          | Resp videoResponse \<Rightarrow>
                              if \<not> ok videoResponse
                              then (Inl ''Failed to download video file'', log2)
                              else (case blob_body videoResponse of
                                      Inl e \<Rightarrow> (Inl e, log2)
                                    | Inr blob \<Rightarrow> (Inr (), log2 @ [SaveAs blob (filename item)])))
                    else (Inl ''No download URL provided'', log1)))"

definition service2 :: "browser \<Rightarrow> MediaItem \<Rightarrow> event list \<Rightarrow> outcome" where
  "service2 = web_service ''https://youtube-mp4-downloader.vercel.app/api/download?url='' ''downloadUrl''"

definition service3 :: "browser \<Rightarrow> MediaItem \<Rightarrow> event list \<Rightarrow> outcome" where
  "service3 = web_service ''https://api.vevioz.com/api/button/mp4/mp4-720?url='' ''url''"

definition all_failed :: string where
  "all_failed = ''All YouTube download services failed. To use yt-dlp backend, please install yt-dlp (pip install yt-dlp) and run the server with 'npm run dev:full'. Last error: ''"

text \<open>
  The loop of \<^verbatim>\<open>downloadYouTubeVideo\<close> over \<^verbatim>\<open>downloadServices\<close>, from index \<open>i\<close> on, with
  \<^verbatim>\<open>lastError\<close> (\<open>None\<close> is \<^verbatim>\<open>null\<close>).
\<close>

fun try_services ::
  "nat \<Rightarrow> (event list \<Rightarrow> outcome) list \<Rightarrow> string option \<Rightarrow> event list \<Rightarrow> outcome" where
  "try_services i [] lastError log =
     (Inl (all_failed @ (case lastError of None \<Rightarrow> ''undefined'' | Some e \<Rightarrow> e)), log)"
| "try_services i (s # ss) lastError log =
     (case s (log @ [Trying (i + 1)]) of
        (Inr u, log') \<Rightarrow> (Inr (), log' @ [Succeeded (i + 1)])
      | (Inl e, log') \<Rightarrow> try_services (i + 1) ss (Some e) (log' @ [ServiceFailed (i + 1) e]))"

definition downloadYouTubeVideo :: "browser \<Rightarrow> MediaItem \<Rightarrow> string \<Rightarrow> event list \<Rightarrow> outcome" where
  "downloadYouTubeVideo b item videoId log =
     try_services 0 [service1 b item, service2 b item, service3 b item] None log"

definition downloadEmbeddedVideo :: "browser \<Rightarrow> MediaItem \<Rightarrow> event list \<Rightarrow> outcome" where
  "downloadEmbeddedVideo b item log =
     (if includes_str (url item) ''youtube.com'' \<or> includes_str (url item) ''youtu.be'' then
        (case extractYouTubeId (url item) of
           Inl e \<Rightarrow> (Inl e, log)
         | Inr videoId \<Rightarrow>
             (case downloadYouTubeVideo b item videoId log of
                (Inr u, log') \<Rightarrow> (Inr (), log')
              | (Inl e, log') \<Rightarrow> (Inl ''Failed to download YouTube video'', log')))
      else
        (case downloadDirectMedia b item log of
           (Inr u, log') \<Rightarrow> (Inr (), log')
         | (Inl e, log') \<Rightarrow> (Inl ''Failed to download embedded video'', log')))"

definition downloadMedia :: "browser \<Rightarrow> MediaItem \<Rightarrow> event list \<Rightarrow> outcome" where
  "downloadMedia b item log =
     (case (if type item = video \<and> includes_str (url item) ''blob:''
            then downloadBlobVideo b item log
            else if includes_str (url item) ''youtube.com'' \<or> includes_str (url item) ''youtu.be''
                    \<or> includes_str (url item) ''vimeo.com''
            then downloadEmbeddedVideo b item log
            else downloadDirectMedia b item log) of
        (Inr u, log') \<Rightarrow> (Inr (), log')
      | (Inl e, log') \<Rightarrow> (Inl (''Failed to download '' @ filename item), log'))"

section \<open>Downloads as tasks of the event loop\<close>

text \<open>
  \<^verbatim>\<open>downloadAll\<close> calls \<^verbatim>\<open>downloadMedia\<close> for every item before it waits for any of
  them, so the downloads of a batch run interleaved. For this the download functions
  are written once more as tasks that say where they suspend: at a \<^verbatim>\<open>fetch\<close> (\<open>Await\<close>,
  resumed with the answer of the network) and at the reading of a body by
  \<^verbatim>\<open>response.blob()\<close> or \<^verbatim>\<open>response.json()\<close> (\<open>Yield\<close>). Between two suspensions a task
  runs without interruption. \<open>Link\<close> is the call of \<^verbatim>\<open>createDownloadLink\<close>. Each function
  takes what follows it as a continuation \<open>k\<close>. \<open>run\<close> runs one task alone to its end;
  run alone, every task below is the function above of the same name
  (lemmas \<open>run_downloadMedia\<close> and its like).
\<close>

datatype proc =
    Done "string + unit"
  | Emit event proc
  | Await request "fetch_outcome \<Rightarrow> proc"
  | Yield proc
  | Link string string proc

primrec run :: "browser \<Rightarrow> proc \<Rightarrow> event list \<Rightarrow> outcome" where
  "run b (Done r) = (\<lambda>log. (r, log))"
| "run b (Emit e p) = (\<lambda>log. run b p (log @ [e]))"
| "run b (Await req k) = (\<lambda>log. run b (k (net b log req)) (log @ [Fetch req]))"
| "run b (Yield p) = (\<lambda>log. run b p log)"
| "run b (Link u fname p) = (\<lambda>log. run b p (createDownloadLink b u fname log))"
























section \<open>MediaGrid\<close>






section \<open>Observations\<close>

text \<open>
  The services that a run of the service loop announced, in order, and a browser
  without network: every \<^verbatim>\<open>fetch\<close> rejects, the anchor element works.
\<close>

definition attempts :: "event list \<Rightarrow> nat list" where
  "attempts log = concat (map (\<lambda>e. case e of Trying i \<Rightarrow> [i] | _ \<Rightarrow> []) log)"

definition offline_browser :: browser where
  "offline_browser =
     \<lparr> net = (\<lambda>log req. NetErr ''Failed to fetch''),
       encodeURIComponent = (\<lambda>s. s),
       parseFromString = (\<lambda>html. example_document),
       URL_href = (\<lambda>u baseUrl. None),
       URL_pathname = (\<lambda>u. None),
       anchor_throws = (\<lambda>log. False) \<rparr>"

text \<open>
  A browser whose local backend answers 500 because the tool is missing, while every
  \<^verbatim>\<open>GET\<close> is answered with a JSON object that names a file and with the bytes of that
  file.
\<close>

definition backendless_browser :: browser where
  "backendless_browser =
     \<lparr> net = (\<lambda>log req.
          case req of
            PostJson u body \<Rightarrow>
              Resp \<lparr> ok = False, status = 500, statusText = ''Internal Server Error'',
                     content_type = Some ''application/json'',
                     text_body = Inr [],
                     json_body = Inr (JObj [(''error'', ''yt-dlp is not installed'')]),
                     blob_body = Inr [] \<rparr>
          | Get u \<Rightarrow>
              Resp \<lparr> ok = True, status = 200, statusText = ''OK'',
                     content_type = Some ''application/json'',
                     text_body = Inr [],
                     json_body = Inr (JObj [(''downloadUrl'', ''https://cdn.example.com/v.mp4'')]),
                     blob_body = Inr ''bytes'' \<rparr>
          | GetNoCors u \<Rightarrow> NetErr ''Failed to fetch''),
       encodeURIComponent = (\<lambda>s. s),
       parseFromString = (\<lambda>html. example_document),
       URL_href = (\<lambda>u baseUrl. None),
       URL_pathname = (\<lambda>u. None),
       anchor_throws = (\<lambda>log. False) \<rparr>"



section \<open>The backend\<close>

text \<open>
  \<^verbatim>\<open>qualityFormats\<close> is an object literal, so \<^verbatim>\<open>qualityFormats[quality]\<close> looks the key up
  among its own five properties and then among the properties that every object
  inherits from \<^verbatim>\<open>Object.prototype\<close>: functions, and the prototype object itself
  under \<^verbatim>\<open>__proto__\<close>. A key found nowhere gives \<^verbatim>\<open>undefined\<close>.
\<close>

datatype jsval = JUndefined | JString string | JFunction string | JObject

definition js_truthy :: "jsval \<Rightarrow> bool" where
  "js_truthy v = (case v of JUndefined \<Rightarrow> False | JString s \<Rightarrow> s \<noteq> [] | _ \<Rightarrow> True)"

definition qualityFormats_own :: "(string \<times> string) list" where
  "qualityFormats_own =
    [ (''maximum'', ''bestvideo[height>=2160]+bestaudio/bestvideo[height>=1440]+bestaudio/bestvideo[height>=1080]+bestaudio/bestvideo+bestaudio/best''),
      (''high'', ''bestvideo[height<=1080][ext=mp4]+bestaudio[ext=m4a]/best[height<=1080][ext=mp4]/bestvideo[height<=1080]+bestaudio/best''),
      (''medium'', ''bestvideo[height<=720][ext=mp4]+bestaudio[ext=m4a]/best[height<=720][ext=mp4]/bestvideo[height<=720]+bestaudio/best''),
      (''low'', ''bestvideo[height<=480][ext=mp4]+bestaudio[ext=m4a]/best[height<=480][ext=mp4]/bestvideo[height<=480]+bestaudio/best''),
      (''audio'', ''bestaudio[ext=m4a]/bestaudio[ext=mp3]/bestaudio'') ]"

definition Object_prototype_functions :: "string list" where
  "Object_prototype_functions =
    [ ''constructor'', ''hasOwnProperty'', ''isPrototypeOf'', ''propertyIsEnumerable'',
      ''toLocaleString'', ''toString'', ''valueOf'', ''__defineGetter__'', ''__defineSetter__'',
      ''__lookupGetter__'', ''__lookupSetter__'' ]"

definition qualityFormats :: "string \<Rightarrow> jsval" where
  "qualityFormats key =
     (case map_of qualityFormats_own key of
        Some format \<Rightarrow> JString format
      | None \<Rightarrow>
          if key \<in> set Object_prototype_functions then JFunction key
          else if key = ''__proto__'' then JObject
          else JUndefined)"

text \<open>
  The body of a request, with the three properties the handler reads; \<open>None\<close> is a
  property that is absent. Only string values are modelled.
\<close>

record request_body =
  req_url :: "string option"
  req_filename :: "string option"
  req_quality :: "string option"

text \<open>
  What the operating system does is a parameter. A call of \<^verbatim>\<open>spawn\<close> throws at once
  (an argument it refuses, or an error of the system other than the ones Node
  reports by event), or the child emits \<^verbatim>\<open>error\<close>, or it emits \<^verbatim>\<open>close\<close> with an exit
  code. Reading the downloaded file ends or fails. Not modelled are failures of
  \<^verbatim>\<open>readdirSync\<close>, \<^verbatim>\<open>statSync\<close>, \<^verbatim>\<open>rmSync\<close> and \<^verbatim>\<open>res.setHeader\<close> inside the handler of
  \<^verbatim>\<open>close\<close>, a \<^verbatim>\<open>close\<close> event that follows an \<^verbatim>\<open>error\<close> event, and an exit code of
  \<^verbatim>\<open>null\<close>; each of them can only leave more directories behind.
\<close>

datatype spawn_outcome = SpawnThrows string | ErrorEvent string | CloseEvent int

datatype stream_outcome = StreamEnd | StreamError string

record server_env =
  ytdlp_version :: spawn_outcome
  mkdtempSync :: "string + string"
  ytdlp_run :: spawn_outcome
  ytdlp_stdout :: string
  ytdlp_stderr :: string
  readdirSync :: "string list"
  file_size :: nat
  stream :: stream_outcome
  headersSent :: bool

datatype server_event =
    Spawn string "jsval list"
  | Reply nat "(string \<times> string) list"
  | SendFile string string nat

text \<open>The state of the server: the temporary directories on disk and what it did.\<close>

record server_state =
  dirs :: "string list"
  did :: "server_event list"

definition rmSync :: "string \<Rightarrow> server_state \<Rightarrow> server_state" where
  "rmSync d st = st\<lparr>dirs := removeAll d (dirs st)\<rparr>"

definition reply :: "nat \<Rightarrow> (string \<times> string) list \<Rightarrow> server_state \<Rightarrow> server_state" where
  "reply code obj st = st\<lparr>did := did st @ [Reply code obj]\<rparr>"

definition show_int :: "int \<Rightarrow> string" where
  "show_int i = (if i < 0 then ''-'' @ decimal (nat (- i)) else decimal (nat i))"

text \<open>\<^verbatim>\<open>checkYtDlp\<close>: the tool is there when \<^verbatim>\<open>yt-dlp --version\<close> closes with code 0.\<close>

definition checkYtDlp :: "server_env \<Rightarrow> bool option" where
  "checkYtDlp env =
     (case ytdlp_version env of
        SpawnThrows e \<Rightarrow> None
      | ErrorEvent e \<Rightarrow> Some False
      | CloseEvent code \<Rightarrow> Some (code = 0))"

definition ytDlpArgs :: "string \<Rightarrow> string \<Rightarrow> string \<Rightarrow> jsval list" where
  "ytDlpArgs quality outputTemplate u =
     (let args = [ JString ''--format'', qualityFormats quality, JString ''--output'',
                   JString outputTemplate, JString ''--no-playlist'',
                   JString ''--restrict-filenames'', JString ''--embed-metadata'' ];
          args' = (if quality \<noteq> ''audio''
                   then take 2 args @ [JString ''--merge-output-format'', JString ''mp4'']
                        @ drop 2 args @ [JString ''--write-thumbnail'', JString ''--embed-thumbnail'']
                   else args)
      in args' @ [JString u])"

text \<open>The handler of the \<^verbatim>\<open>close\<close> event of the download.\<close>

definition on_close :: "server_env \<Rightarrow> string \<Rightarrow> string option \<Rightarrow> int \<Rightarrow> server_state \<Rightarrow> server_state" where
  "on_close env tempDir fname code st =
     (if code = 0 then
        (case readdirSync env of
           f # fs \<Rightarrow>
             (let downloadedFile = tempDir @ ''/'' @ f;
                  finalFilename = or_else fname f;
                  st1 = st\<lparr>did := did st @ [SendFile downloadedFile finalFilename (file_size env)]\<rparr>
              in case stream env of
                   StreamEnd \<Rightarrow> rmSync tempDir st1
                 | StreamError e \<Rightarrow>
                     (let st2 = rmSync tempDir st1
                      in if \<not> headersSent env
                         then reply 500 [(''error'', ''Failed to send file'')] st2
                         else st2))
         | [] \<Rightarrow> reply 500 [(''error'', ''No file was downloaded'')] (rmSync tempDir st))
      else
        reply 500 [ (''error'', ''yt-dlp failed with code '' @ show_int code),
                    (''details'', if ytdlp_stderr env \<noteq> [] then ytdlp_stderr env
                                  else ytdlp_stdout env) ]
          (rmSync tempDir st))"

text \<open>
  The \<^verbatim>\<open>try\<close> block of the handler of \<^verbatim>\<open>POST /api/download-youtube\<close>, and its \<^verbatim>\<open>catch\<close>
  block, which answers 500 and has no access to \<^verbatim>\<open>tempDir\<close>.
\<close>

definition download :: "server_env \<Rightarrow> request_body \<Rightarrow> string \<Rightarrow> string \<Rightarrow> server_state \<Rightarrow> server_state" where
  "download env body quality u st =
     (case mkdtempSync env of
        Inl e \<Rightarrow> reply 500 [(''error'', ''Internal server error''), (''details'', e)] st
      | Inr tempDir \<Rightarrow>
          (let st1 = st\<lparr>dirs := tempDir # dirs st\<rparr>;
               outputTemplate = tempDir @ ''/%(title)s.%(ext)s'';
               st2 = st1\<lparr>did := did st1 @ [Spawn ''yt-dlp'' (ytDlpArgs quality outputTemplate u)]\<rparr>
           in case ytdlp_run env of
                SpawnThrows e \<Rightarrow>
                  reply 500 [(''error'', ''Internal server error''), (''details'', e)] st2
              | ErrorEvent e \<Rightarrow>
                  reply 500 [(''error'', ''Failed to start yt-dlp''), (''details'', e)]
                    (rmSync tempDir st2)
              | CloseEvent code \<Rightarrow> on_close env tempDir (req_filename body) code st2))"

text \<open>
  The handler. When \<^verbatim>\<open>spawn\<close> throws inside \<^verbatim>\<open>checkYtDlp\<close> the promise of the handler
  rejects and nothing is answered.
\<close>

definition post_download_youtube :: "server_env \<Rightarrow> request_body \<Rightarrow> server_state \<Rightarrow> server_state" where
  "post_download_youtube env body st =
     (let quality = (case req_quality body of None \<Rightarrow> ''high'' | Some q \<Rightarrow> q)
      in if \<not> truthy (req_url body) then reply 400 [(''error'', ''URL is required'')] st
         else if \<not> js_truthy (qualityFormats quality)
         then reply 400 [(''error'', ''Invalid quality option'')] st
         else
           (let st1 = st\<lparr>did := did st @ [Spawn ''yt-dlp'' [JString ''--version'']]\<rparr>
            in case checkYtDlp env of
                 None \<Rightarrow> st1
               | Some ytDlpAvailable \<Rightarrow>
                   if \<not> ytDlpAvailable
                   then reply 500 [(''error'',
                          ''yt-dlp is not installed. Please install it with: pip install yt-dlp'')] st1
                   else download env body quality (or_else (req_url body) []) st1))"

text \<open>
  Two machines for concrete runs: one without the tool, and one with the tool on
  which \<^verbatim>\<open>spawn\<close> refuses the arguments of the download.
\<close>

definition machine_without_tool :: server_env where
  "machine_without_tool =
     \<lparr> ytdlp_version = ErrorEvent ''spawn yt-dlp ENOENT'',
       mkdtempSync = Inr ''/tmp/ytdl-Ab12Cd'',
       ytdlp_run = ErrorEvent ''spawn yt-dlp ENOENT'',
       ytdlp_stdout = [], ytdlp_stderr = [], readdirSync = [], file_size = 0,
       stream = StreamEnd, headersSent = False \<rparr>"

definition machine_refusing_arguments :: server_env where
  "machine_refusing_arguments =
     \<lparr> ytdlp_version = CloseEvent 0,
       mkdtempSync = Inr ''/tmp/ytdl-Ab12Cd'',
       ytdlp_run = SpawnThrows ''The argument 'args[11]' must be a string without null bytes'',
       ytdlp_stdout = [], ytdlp_stderr = [], readdirSync = [], file_size = 0,
       stream = StreamEnd, headersSent = False \<rparr>"

section \<open>Facts about the matcher\<close>

text \<open>
  A character class under \<^verbatim>\<open>+\<close> inside a group: whatever the rest of the pattern does,
  the group captures a non-empty run of characters of the class.
\<close>

lemma one_Nil: "rest st = [] \<Longrightarrow> one p k st = None"
  by (simp add: one_def)

lemma one_Cons:
  "rest st = c # cs \<Longrightarrow>
   one p k st = (if p c then k (st\<lparr>pos := Suc (pos st), rest := cs\<rparr>) else None)"
  by (simp add: one_def)

lemma star_iter_one:
  "star_iter n (one p) k st = Some r \<Longrightarrow>
   \<exists>ys zs. rest st = ys @ zs \<and> (\<forall>c\<in>set ys. p c) \<and>
           k (st\<lparr>pos := pos st + length ys, rest := zs\<rparr>) = Some r"
proof (induction n arbitrary: st)
  case 0
  then have "k (st\<lparr>pos := pos st + length ([]::string), rest := rest st\<rparr>) = Some r" by simp
  then show ?case by (metis append_Nil empty_iff list.set(1))
next
  case (Suc n)
  have stay: ?case if "k st = Some r"
  proof -
    from that have "k (st\<lparr>pos := pos st + length ([]::string), rest := rest st\<rparr>) = Some r" by simp
    then show ?thesis by (metis append_Nil empty_iff list.set(1))
  qed
  show ?case
  proof (cases "rest st")
    case Nil
    with Suc.prems have "k st = Some r" by (simp add: one_Nil)
    then show ?thesis by (rule stay)
  next
    case (Cons c cs)
    let ?st1 = "st\<lparr>pos := Suc (pos st), rest := cs\<rparr>"
    show ?thesis
    proof (cases "p c \<and> star_iter n (one p) k ?st1 \<noteq> None")
      case True
      from True Cons Suc.prems have "star_iter n (one p) k ?st1 = Some r"
        by (auto simp: one_Cons)
      from Suc.IH[OF this] obtain ys zs where
        h: "cs = ys @ zs" "\<forall>c\<in>set ys. p c" "k (?st1\<lparr>pos := pos ?st1 + length ys, rest := zs\<rparr>) = Some r"
        by auto
      have "rest st = (c # ys) @ zs" using Cons h by simp
      moreover have "\<forall>c\<in>set (c # ys). p c" using True h by simp
      moreover have "k (st\<lparr>pos := pos st + length (c # ys), rest := zs\<rparr>) = Some r"
        using h(3) by simp
      ultimately show ?thesis by blast
    next
      case False
      with Cons Suc.prems have "k st = Some r"
        by (auto simp: one_Cons split: if_splits)
      then show ?thesis by (rule stay)
    qed
  qed
qed

lemma m_Plus_one:
  assumes "m (Plus a) k st = Some r" "m a = one p"
  shows "\<exists>c ys zs. rest st = c # ys @ zs \<and> p c \<and> (\<forall>c\<in>set ys. p c) \<and>
           k (st\<lparr>pos := pos st + Suc (length ys), rest := zs\<rparr>) = Some r"
proof -
  from assms have a: "one p (\<lambda>st'. star_iter (length (rest st')) (one p) k st') st = Some r"
    by simp
  then obtain c cs where cs: "rest st = c # cs"
    by (cases "rest st") (simp_all add: one_Nil)
  let ?st1 = "st\<lparr>pos := Suc (pos st), rest := cs\<rparr>"
  from a cs have pc: "p c" and "star_iter (length cs) (one p) k ?st1 = Some r"
    by (simp_all add: one_Cons split: if_splits)
  from star_iter_one[OF this(2)] obtain ys zs where
    h: "cs = ys @ zs" "\<forall>c\<in>set ys. p c" "k (?st1\<lparr>pos := pos ?st1 + length ys, rest := zs\<rparr>) = Some r"
    by auto
  from h(3) have "k (st\<lparr>pos := pos st + Suc (length ys), rest := zs\<rparr>) = Some r" by simp
  with cs pc h(1,2) show ?thesis by blast
qed

lemma m_Grp_Plus_one:
  assumes "m (Grp i (Plus a)) k st = Some r" "m a = one p"
  shows "\<exists>c ys zs. rest st = c # ys @ zs \<and> p c \<and> (\<forall>c\<in>set ys. p c) \<and>
           k (st\<lparr>pos := pos st + Suc (length ys), rest := zs, caps := (i, c # ys) # caps st\<rparr>) = Some r"
proof -
  let ?k = "\<lambda>st'. k (st'\<lparr>caps := (i, take (length (rest st) - length (rest st')) (rest st)) # caps st'\<rparr>)"
  from assms(1) have "m (Plus a) ?k st = Some r" by simp
  from m_Plus_one[OF this assms(2)] obtain c ys zs where
    h: "rest st = c # ys @ zs" "p c" "\<forall>c\<in>set ys. p c"
       "?k (st\<lparr>pos := pos st + Suc (length ys), rest := zs\<rparr>) = Some r"
    by blast
  from h(4) h(1) have "k (st\<lparr>pos := pos st + Suc (length ys), rest := zs, caps := (i, c # ys) # caps st\<rparr>) = Some r"
    by simp
  with h(1,2,3) show ?thesis by blast
qed

lemma m_NoneOf: "m (NoneOf cs) = one (\<lambda>c. c \<notin> set cs)"
  by (rule ext, rule ext) simp

lemma m_extension:
  assumes "m extension_pattern (\<lambda>st. Some (caps st)) st = Some r" "caps st = []"
  shows "\<exists>e. r = [(1, e)] \<and> e \<noteq> [] \<and> CHR ''.'' \<notin> set e"
proof -
  let ?st1 = "st\<lparr>pos := pos st + length ''.'', rest := drop (length ''.'') (rest st)\<rparr>"
  let ?k = "m (Cat Eol (Lit [])) (\<lambda>st. Some (caps st))"
  have "m extension_pattern (\<lambda>st. Some (caps st)) st
        = (if starts_with (rest st) ''.'' then m (Grp 1 (Plus (NoneOf ''.''))) ?k ?st1 else None)"
    by (simp add: extension_pattern_def seq_def)
  with assms(1) have "m (Grp 1 (Plus (NoneOf ''.''))) ?k ?st1 = Some r"
    by (simp split: if_splits)
  from m_Grp_Plus_one[OF this m_NoneOf] obtain c ys zs where
    h: "c \<notin> set ''.''" "\<forall>c\<in>set ys. c \<notin> set ''.''"
       "?k (?st1\<lparr>pos := pos ?st1 + Suc (length ys), rest := zs, caps := (1, c # ys) # caps ?st1\<rparr>) = Some r"
    by blast
  from h(3) assms(2) have "r = [(1, c # ys)]"
    by (simp add: starts_with_def split: if_splits)
  moreover have "CHR ''.'' \<notin> set (c # ys)" using h(1,2) by auto
  ultimately show ?thesis by blast
qed

lemma search_extension:
  "search extension_pattern p s = Some r \<Longrightarrow> \<exists>e. r = [(1, e)] \<and> e \<noteq> [] \<and> CHR ''.'' \<notin> set e"
proof (induction s arbitrary: p)
  case Nil
  then show ?case using m_extension[of "\<lparr>pos = p, rest = [], caps = []\<rparr>" r] by simp
next
  case (Cons c cs)
  then show ?case using m_extension[of "\<lparr>pos = p, rest = c # cs, caps = []\<rparr>" r]
    by (auto split: option.splits)
qed

lemma getFileExtension_ok:
  "getFileExtension b u = Some e \<Longrightarrow> e \<noteq> [] \<and> CHR ''.'' \<notin> set e"
  using search_extension[of 0 _ ]
  by (fastforce simp: getFileExtension_def capture1_def match_def group_def split: option.splits)

section \<open>Facts about the detector\<close>

lemma has_dot_suffixI:
  assumes "stem \<noteq> []" "ext \<noteq> []" "CHR ''.'' \<notin> set ext"
  shows "has_dot_suffix (stem @ ''.'' @ ext)"
proof -
  have "\<And>x. x \<in> set (rev ext) \<Longrightarrow> x \<noteq> CHR ''.''" using assms(3) by auto
  then have "takeWhile (\<lambda>c. c \<noteq> CHR ''.'') (rev ext @ CHR ''.'' # rev stem)
        = rev ext @ takeWhile (\<lambda>c. c \<noteq> CHR ''.'') (CHR ''.'' # rev stem)"
    by (rule takeWhile_append2)
  then have "rev (takeWhile (\<lambda>c. c \<noteq> CHR ''.'') (rev (stem @ ''.'' @ ext))) = ext"
    by simp
  then show ?thesis using assms(1,2) unfolding has_dot_suffix_def dot_suffix_def
    by (cases stem) simp_all
qed

lemma or_else_nonempty: "d \<noteq> [] \<Longrightarrow> or_else v d \<noteq> []"
  by (simp add: or_else_def split: option.splits)

lemma extension_or_else:
  assumes "d \<noteq> []" "CHR ''.'' \<notin> set d"
  shows "or_else (getFileExtension b u) d \<noteq> [] \<and> CHR ''.'' \<notin> set (or_else (getFileExtension b u) d)"
  using assms getFileExtension_ok[of b u]
  by (cases "getFileExtension b u") (auto simp: or_else_def)

lemma named_ok:
  assumes "dn \<noteq> []" "de \<noteq> []" "CHR ''.'' \<notin> set de"
  shows "has_dot_suffix (named b u dn de)"
  unfolding named_def
  using has_dot_suffixI[OF or_else_nonempty[OF assms(1)]] extension_or_else[OF assms(2,3)]
  by blast

lemma mp4_ok: "d \<noteq> [] \<Longrightarrow> has_dot_suffix (or_else v d @ ''.mp4'')"
  using has_dot_suffixI[of "or_else v d" "''mp4''"] or_else_nonempty[of d v] by simp

lemma has_dot_suffix_nonempty: "has_dot_suffix f \<Longrightarrow> f \<noteq> []"
  by (auto simp: has_dot_suffix_def)

lemma image_from_img_ok:
  assumes "x \<in> set (image_from_img b base i)"
  shows "has_dot_suffix (filename x)"
proof -
  from assms obtain a where "filename x = named b a ''image'' ''jpg''"
    unfolding image_from_img_def media_item_def Let_def
    by (auto split: option.splits if_splits)
  then show ?thesis by (simp add: named_ok)
qed

lemma extractImages_ok:
  "x \<in> set (extractImages b doc base) \<Longrightarrow> has_dot_suffix (filename x)"
  unfolding extractImages_def using image_from_img_ok by auto

lemma video_from_src_ok:
  assumes "x \<in> set (video_from_src b base a)"
  shows "has_dot_suffix (filename x)"
proof -
  from assms obtain a where "filename x = named b a ''video'' ''mp4''"
    unfolding video_from_src_def media_item_def Let_def
    by (auto split: option.splits if_splits)
  then show ?thesis by (simp add: named_ok)
qed

lemma video_from_element_ok:
  "x \<in> set (video_from_element b base v) \<Longrightarrow> has_dot_suffix (filename x)"
  unfolding video_from_element_def using video_from_src_ok by auto

lemma video_from_iframe_ok:
  assumes "x \<in> set (video_from_iframe b a)"
  shows "has_dot_suffix (filename x)"
proof -
  from assms obtain v where "filename x = or_else v ''embedded-video'' @ ''.mp4''"
    unfolding video_from_iframe_def media_item_def
    by (auto split: option.splits if_splits)
  then show ?thesis by (simp add: mp4_ok)
qed

lemma extractVideos_ok:
  "x \<in> set (extractVideos b doc base) \<Longrightarrow> has_dot_suffix (filename x)"
  unfolding extractVideos_def using video_from_element_ok video_from_iframe_ok by auto

lemma audio_from_src_ok:
  assumes "x \<in> set (audio_from_src b base a)"
  shows "has_dot_suffix (filename x)"
proof -
  from assms obtain a where "filename x = named b a ''audio'' ''mp3''"
    unfolding audio_from_src_def media_item_def Let_def
    by (auto split: option.splits if_splits)
  then show ?thesis by (simp add: named_ok)
qed

lemma extractAudio_ok:
  "x \<in> set (extractAudio b doc base) \<Longrightarrow> has_dot_suffix (filename x)"
  unfolding extractAudio_def using audio_from_src_ok by auto

lemma image_from_style_ok:
  assumes "x \<in> set (image_from_style b base a)"
  shows "has_dot_suffix (filename x)"
proof -
  from assms obtain a where "filename x = named b a ''background'' ''jpg''"
    unfolding image_from_style_def media_item_def Let_def
    by (auto split: option.splits if_splits)
  then show ?thesis by (simp add: named_ok)
qed

lemma extractCSSMedia_ok:
  "x \<in> set (extractCSSMedia b doc base) \<Longrightarrow> has_dot_suffix (filename x)"
  unfolding extractCSSMedia_def using image_from_style_ok by auto

lemma getSampleMediaItems_ok: "x \<in> set getSampleMediaItems \<Longrightarrow> has_dot_suffix (filename x)"
  by (auto simp: getSampleMediaItems_def has_dot_suffix_def dot_suffix_def)

lemma getSampleMediaItems_distinct: "distinct (map url getSampleMediaItems)"
  by (simp add: getSampleMediaItems_def)

lemma handleYouTubeUrl_ok:
  assumes "x \<in> set (handleYouTubeUrl u)"
  shows "has_dot_suffix (filename x)"
proof -
  from assms obtain stem where "filename x = stem @ ''.mp4''" "stem \<noteq> []"
    unfolding handleYouTubeUrl_def media_item_def Let_def by auto
  then show ?thesis using has_dot_suffixI[of stem "''mp4''"] by simp
qed

lemma uniqueMedia_subset: "set (uniqueMedia xs) \<subseteq> set xs"
  by (auto simp: uniqueMedia_def in_set_enumerate_eq)

lemma uniqueMedia_distinct: "distinct (map url (uniqueMedia xs))"
proof -
  let ?Q = "\<lambda>(index, item). Some index = findIndex (\<lambda>t. url t = url item) xs"
  let ?ys = "filter ?Q (enumerate 0 xs)"
  have d: "distinct ?ys" by (simp add: distinct_enumerate)
  have "inj_on (\<lambda>p. url (snd p)) (set ?ys)"
  proof (rule inj_onI)
    fix p q assume p: "p \<in> set ?ys" and q: "q \<in> set ?ys" and e: "url (snd p) = url (snd q)"
    from p have p1: "Some (fst p) = findIndex (\<lambda>t. url t = url (snd p)) xs" and p2: "xs ! fst p = snd p"
      by (auto simp: in_set_enumerate_eq)
    from q have q1: "Some (fst q) = findIndex (\<lambda>t. url t = url (snd q)) xs" and q2: "xs ! fst q = snd q"
      by (auto simp: in_set_enumerate_eq)
    from p1 q1 e have "Some (fst p) = Some (fst q)" by metis
    then have "fst p = fst q" by simp
    with p2 q2 show "p = q" by (simp add: prod_eq_iff)
  qed
  with d have "distinct (map (\<lambda>p. url (snd p)) ?ys)" by (simp add: distinct_map)
  then show ?thesis by (simp add: uniqueMedia_def comp_def)
qed

lemma findIndex_Some_iff:
  "findIndex p xs = Some i \<longleftrightarrow> i < length xs \<and> p (xs ! i) \<and> (\<forall>j<i. \<not> p (xs ! j))"
proof (induction xs arbitrary: i)
  case Nil
  then show ?case by simp
next
  case (Cons x xs)
  show ?case
  proof (cases "p x")
    case True
    then show ?thesis by (cases i) auto
  next
    case False
    show ?thesis
    proof (cases i)
      case 0
      with False show ?thesis by auto
    next
      case (Suc k)
      have "(\<forall>j<Suc k. \<not> p ((x # xs) ! j)) \<longleftrightarrow> (\<forall>j<k. \<not> p (xs ! j))"
        using False by (auto simp: less_Suc_eq_0_disj)
      with False Suc Cons.IH[of k] show ?thesis by auto
    qed
  qed
qed

lemma uniqueMedia_first:
  "uniqueMedia xs =
     map snd (filter (\<lambda>(i, x). \<forall>j<i. url (xs ! j) \<noteq> url x) (enumerate 0 xs))"
proof -
  have "filter (\<lambda>(index, item). Some index = findIndex (\<lambda>t. url t = url item) xs) (enumerate 0 xs)
        = filter (\<lambda>(i, x). \<forall>j<i. url (xs ! j) \<noteq> url x) (enumerate 0 xs)"
  proof (rule filter_cong[OF refl])
    fix p assume "p \<in> set (enumerate 0 xs)"
    then have "fst p < length xs" "xs ! fst p = snd p" by (auto simp: in_set_enumerate_eq)
    then show "(case p of (index, item) \<Rightarrow> Some index = findIndex (\<lambda>t. url t = url item) xs)
             = (case p of (i, x) \<Rightarrow> \<forall>j<i. url (xs ! j) \<noteq> url x)"
      using findIndex_Some_iff[of "\<lambda>t. url t = url (snd p)" xs "fst p"]
      by (auto simp: case_prod_beta)
  qed
  then show ?thesis by (simp add: uniqueMedia_def)
qed

lemma detectMedia_cases:
  "fst (detectMedia b log u) = handleYouTubeUrl u \<or>
   fst (detectMedia b log u) = getSampleMediaItems \<or>
   (\<exists>doc. fst (detectMedia b log u) =
      uniqueMedia (extractImages b doc u @ extractVideos b doc u @ extractAudio b doc u
                   @ extractCSSMedia b doc u))"
  by (auto simp: detectMedia_def Let_def split: sum.splits)

lemma handleYouTubeUrl_distinct: "distinct (map url (handleYouTubeUrl u))"
  by (simp add: handleYouTubeUrl_def Let_def)

lemma detectMedia_urls_and_names:
  "distinct (map url (fst (detectMedia b log u))) \<and>
   (\<forall>item \<in> set (fst (detectMedia b log u)).
      type item \<noteq> other \<longrightarrow> filename item \<noteq> [] \<and> has_dot_suffix (filename item))"
proof -
  consider (yt) "fst (detectMedia b log u) = handleYouTubeUrl u"
    | (sample) "fst (detectMedia b log u) = getSampleMediaItems"
    | (page) doc where "fst (detectMedia b log u) =
        uniqueMedia (extractImages b doc u @ extractVideos b doc u @ extractAudio b doc u
                     @ extractCSSMedia b doc u)"
    using detectMedia_cases by blast
  then show ?thesis
  proof cases
    case yt
    then show ?thesis
      using handleYouTubeUrl_distinct handleYouTubeUrl_ok has_dot_suffix_nonempty by metis
  next
    case sample
    then show ?thesis
      using getSampleMediaItems_distinct getSampleMediaItems_ok has_dot_suffix_nonempty by metis
  next
    case page
    have "has_dot_suffix (filename x)"
      if "x \<in> set (fst (detectMedia b log u))" for x
    proof -
      from that page
      have "x \<in> set (uniqueMedia (extractImages b doc u @ extractVideos b doc u
                     @ extractAudio b doc u @ extractCSSMedia b doc u))" by simp
      then have "x \<in> set (extractImages b doc u @ extractVideos b doc u @ extractAudio b doc u
                     @ extractCSSMedia b doc u)" using uniqueMedia_subset by blast
      then show ?thesis
        using extractImages_ok extractVideos_ok extractAudio_ok extractCSSMedia_ok by auto
    qed
    then show ?thesis
      using page uniqueMedia_distinct has_dot_suffix_nonempty by metis
  qed
qed

lemma detectMedia_first_seen:
  assumes "\<not> (includes_str u ''youtube.com'' \<or> includes_str u ''youtu.be'')"
    and "fetch_html b log u = Inr htmlContent"
    and "xs = extractImages b (parseFromString b htmlContent) u
              @ extractVideos b (parseFromString b htmlContent) u
              @ extractAudio b (parseFromString b htmlContent) u
              @ extractCSSMedia b (parseFromString b htmlContent) u"
  shows "fst (detectMedia b log u) =
           map snd (filter (\<lambda>(i, x). \<forall>j<i. url (xs ! j) \<noteq> url x) (enumerate 0 xs))"
proof -
  from assms have "fst (detectMedia b log u) = uniqueMedia xs"
    by (simp add: detectMedia_def Let_def)
  then show ?thesis by (simp add: uniqueMedia_first)
qed

section \<open>Facts about the two extractors\<close>

lemmas regex_eval = capture1_def capture2_def match_def group_def seq_def alts_def accepted_def
  one_def starts_with_def is_word_def is_line_terminator_def is_space_def cleanUrl_def

lemma first_accepted_append:
  "first_accepted (xs @ ys) s =
     (case first_accepted xs s of Some i \<Rightarrow> Some i | None \<Rightarrow> first_accepted ys s)"
proof (induction xs)
  case Nil
  then show ?case by simp
next
  case (Cons r xs)
  then show ?case
    by (cases "capture1 s r") (simp_all add: accepted_def)
qed

lemma first_accepted_None:
  "first_accepted rs s = None \<longleftrightarrow> (\<forall>r\<in>set rs. \<not> accepted (capture1 s r))"
proof (induction rs)
  case Nil
  then show ?case by simp
next
  case (Cons r rs)
  then show ?case
    by (cases "accepted (capture1 s r)") (auto simp: accepted_def split: option.splits)
qed

lemma first_accepted_Some:
  "first_accepted rs s = Some i \<Longrightarrow>
   (length i = 10 \<or> length i = 11) \<and>
   (\<exists>k<length rs. capture1 s (rs ! k) = Some i \<and> (\<forall>j<k. \<not> accepted (capture1 s (rs ! j))))"
proof (induction rs)
  case Nil
  then show ?case by simp
next
  case (Cons r rs)
  show ?case
  proof (cases "accepted (capture1 s r)")
    case True
    with Cons.prems have c: "capture1 s r = Some i" by simp
    with True have "length i = 10 \<or> length i = 11" by (auto simp: accepted_def)
    moreover have "\<exists>k<length (r # rs). capture1 s ((r # rs) ! k) = Some i \<and>
                     (\<forall>j<k. \<not> accepted (capture1 s ((r # rs) ! j)))"
      using c by (intro exI[of _ 0]) simp
    ultimately show ?thesis by blast
  next
    case False
    with Cons.prems have "first_accepted rs s = Some i" by simp
    from Cons.IH[OF this] obtain k where
      k: "length i = 10 \<or> length i = 11" "k < length rs" "capture1 s (rs ! k) = Some i"
         "\<forall>j<k. \<not> accepted (capture1 s (rs ! j))"
      by blast
    have "\<forall>j<Suc k. \<not> accepted (capture1 s ((r # rs) ! j))"
      using False k(4) by (auto simp: less_Suc_eq_0_disj)
    then have "\<exists>k'<length (r # rs). capture1 s ((r # rs) ! k') = Some i \<and>
                     (\<forall>j<k'. \<not> accepted (capture1 s ((r # rs) ! j)))"
      using k(2,3) by (intro exI[of _ "Suc k"]) simp
    with k(1) show ?thesis by blast
  qed
qed

lemma download_patterns_prefix:
  "download_patterns = detector_patterns @ drop 4 download_patterns"
  by (simp add: download_patterns_def detector_patterns_def)

lemma handleYouTubeUrl_None:
  "detector_extractYouTubeId u = None \<Longrightarrow>
   handleYouTubeUrl u = [\<lparr>url = u, type = video, filename = ''youtube_video.mp4'', size = None,
                          dimensions = None, thumbnail = None\<rparr>]"
  by (simp add: handleYouTubeUrl_def media_item_def truthy_def)

lemma handleYouTubeUrl_Some:
  "detector_extractYouTubeId u = Some i \<Longrightarrow>
   handleYouTubeUrl u =
     [\<lparr>url = u, type = video, filename = ''youtube_'' @ i @ ''.mp4'', size = None,
       dimensions = None,
       thumbnail = Some (''https://img.youtube.com/vi/'' @ i @ ''/maxresdefault.jpg'')\<rparr>]"
proof -
  assume a: "detector_extractYouTubeId u = Some i"
  then have "length i = 10 \<or> length i = 11"
    using first_accepted_Some[of detector_patterns "cleanUrl u" i]
    by (simp add: detector_extractYouTubeId_def)
  then have "i \<noteq> []" by auto
  with a show ?thesis
    by (simp add: handleYouTubeUrl_def media_item_def truthy_def or_else_def)
qed

section \<open>Facts about the download service\<close>

lemma starts_with_iff: "starts_with s p \<longleftrightarrow> (\<exists>post. s = p @ post)"
  unfolding starts_with_def
  by (metis append_eq_conv_conj append_take_drop_id)

lemma includes_str_iff: "includes_str s sub \<longleftrightarrow> (\<exists>pre post. s = pre @ sub @ post)"
proof (induction s)
  case Nil
  then show ?case by auto
next
  case (Cons c cs)
  show ?case
  proof
    assume "includes_str (c # cs) sub"
    then consider "starts_with (c # cs) sub" | "includes_str cs sub" by auto
    then show "\<exists>pre post. c # cs = pre @ sub @ post"
    proof cases
      case 1
      then obtain post where "c # cs = sub @ post" using starts_with_iff by blast
      then have "c # cs = [] @ sub @ post" by simp
      then show ?thesis by blast
    next
      case 2
      with Cons.IH obtain pre post where "cs = pre @ sub @ post" by blast
      then have "c # cs = (c # pre) @ sub @ post" by simp
      then show ?thesis by blast
    qed
  next
    assume "\<exists>pre post. c # cs = pre @ sub @ post"
    then obtain pre post where e: "c # cs = pre @ sub @ post" by blast
    show "includes_str (c # cs) sub"
    proof (cases pre)
      case Nil
      with e have "starts_with (c # cs) sub" using starts_with_iff by auto
      then show ?thesis by simp
    next
      case (Cons p pre')
      with e have "cs = pre' @ sub @ post" by simp
      with Cons.IH have "includes_str cs sub" by blast
      then show ?thesis by simp
    qed
  qed
qed

lemma includes_str_suffix: "includes_str (xs @ ys) ys"
  using includes_str_iff[of "xs @ ys" ys] by (metis append_Nil2)

lemma includes_str_appendI: "includes_str xs sub \<Longrightarrow> includes_str (xs @ ys) sub"
proof -
  assume "includes_str xs sub"
  then obtain pre post where "xs = pre @ sub @ post" using includes_str_iff by blast
  then have "xs @ ys = pre @ sub @ (post @ ys)" by simp
  then show ?thesis using includes_str_iff by blast
qed

lemma attempts_append: "attempts (xs @ ys) = attempts xs @ attempts ys"
  by (simp add: attempts_def)

lemma attempts_simps:
  "attempts [] = []"
  "attempts (Trying i # es) = i # attempts es"
  "attempts (Fetch r # es) = attempts es"
  "attempts (SaveAs bl f # es) = attempts es"
  "attempts (Succeeded i # es) = attempts es"
  "attempts (ServiceFailed i e # es) = attempts es"
  "attempts (AnchorClick u f # es) = attempts es"
  "attempts (WindowOpen u # es) = attempts es"
  by (simp_all add: attempts_def)

lemma service1_attempts: "attempts (snd (service1 b item log)) = attempts log"
  by (simp add: service1_def Let_def attempts_append attempts_simps
      split: fetch_outcome.splits sum.splits json.splits)

lemma web_service_attempts: "attempts (snd (web_service ep fld b item log)) = attempts log"
  by (simp add: web_service_def Let_def attempts_append attempts_simps
      split: fetch_outcome.splits sum.splits json.splits)

lemma service2_attempts: "attempts (snd (service2 b item log)) = attempts log"
  by (simp add: service2_def web_service_attempts)

lemma service3_attempts: "attempts (snd (service3 b item log)) = attempts log"
  by (simp add: service3_def web_service_attempts)

lemma downloadYouTubeVideo_unfold:
  "downloadYouTubeVideo b item videoId log =
     (case service1 b item (log @ [Trying 1]) of
        (Inr u, l1) \<Rightarrow> (Inr (), l1 @ [Succeeded 1])
      | (Inl e1, l1) \<Rightarrow>
          (case service2 b item (l1 @ [ServiceFailed 1 e1, Trying 2]) of
             (Inr u, l2) \<Rightarrow> (Inr (), l2 @ [Succeeded 2])
           | (Inl e2, l2) \<Rightarrow>
               (case service3 b item (l2 @ [ServiceFailed 2 e2, Trying 3]) of
                  (Inr u, l3) \<Rightarrow> (Inr (), l3 @ [Succeeded 3])
                | (Inl e3, l3) \<Rightarrow> (Inl (all_failed @ e3), l3 @ [ServiceFailed 3 e3]))))"
  by (simp add: downloadYouTubeVideo_def numeral_2_eq_2 numeral_3_eq_3
      split: prod.splits sum.splits)

lemmas offline_eval = offline_browser_def service1_def service2_def service3_def web_service_def
  Let_def

lemma direct_fallback_ok: "fst (direct_fallback b item log) = Inr ()"
  by (simp add: direct_fallback_def Let_def split: fetch_outcome.splits sum.splits)

lemma downloadDirectMedia_ok: "fst (downloadDirectMedia b item log) = Inr ()"
  by (simp add: downloadDirectMedia_def Let_def direct_fallback_ok
      split: fetch_outcome.splits sum.splits)

lemma downloadMedia_blob:
  "type item = video \<and> includes_str (url item) ''blob:'' \<Longrightarrow>
   downloadMedia b item log =
     (case downloadBlobVideo b item log of
        (Inr u, log') \<Rightarrow> (Inr (), log')
      | (Inl e, log') \<Rightarrow> (Inl (''Failed to download '' @ filename item), log'))"
  by (simp add: downloadMedia_def)

lemma downloadBlobVideo_failure:
  "downloadBlobVideo b item log = (Inl e, log') \<Longrightarrow> log' = log @ [Fetch (Get (url item))]"
  by (auto simp: downloadBlobVideo_def Let_def split: fetch_outcome.splits sum.splits)













































section \<open>Facts about the backend\<close>

lemmas server_eval = post_download_youtube_def download_def on_close_def checkYtDlp_def
  ytDlpArgs_def reply_def rmSync_def qualityFormats_def qualityFormats_own_def
  Object_prototype_functions_def js_truthy_def truthy_def or_else_def Let_def

lemma unknown_quality_rejected:
  assumes "truthy (req_url body)" "req_quality body = Some q"
    "q \<notin> set (map fst qualityFormats_own)" "q \<notin> set Object_prototype_functions"
    "q \<noteq> ''__proto__''"
  shows "post_download_youtube env body st = reply 400 [(''error'', ''Invalid quality option'')] st"
proof -
  from assms(3) have "map_of qualityFormats_own q = None"
    by (simp add: map_of_eq_None_iff)
  with assms(4,5) have "qualityFormats q = JUndefined" by (simp add: qualityFormats_def)
  with assms(1,2) show ?thesis by (simp add: post_download_youtube_def js_truthy_def)
qed

lemma tempdir_removed_on_handled_paths:
  assumes "mkdtempSync env = Inr tempDir" "tempDir \<notin> set (dirs st)"
    "ytdlp_run env = ErrorEvent e \<or> ytdlp_run env = CloseEvent code"
  shows "tempDir \<notin> set (dirs (download env body quality u st))"
  using assms
  by (auto simp: download_def on_close_def reply_def rmSync_def Let_def
      split: list.splits stream_outcome.splits if_splits)

section \<open>The detection result\<close>

text \<open>
  Claim C3. Two parts of the claim hold on every exit of \<^verbatim>\<open>detectMedia\<close>
  (\<open>detectMedia_urls_and_names\<close>, \<open>detectMedia_first_seen\<close>): the URLs of the items are
  pairwise distinct, the items kept being the first with their URL, in order, and
  every file name is non-empty and has a non-empty text behind its last dot. That
  text is not always a file extension: \<^verbatim>\<open>getFileExtension\<close> searches the whole path,
  while \<^verbatim>\<open>extractFilename\<close> takes the last segment. For an image at
  \<^verbatim>\<open>https://example.com/v1.2/avatar\<close> the extension found is \<^verbatim>\<open>2/avatar\<close>, and the item
  is named \<^verbatim>\<open>avatar.2/avatar\<close>.
\<close>

theorem dotted_directory_extension:
  "fst (detectMedia versioned_path_browser [] ''https://example.com/'') =
     [ \<lparr>url = ''https://example.com/v1.2/avatar'', type = image,
        filename = ''avatar.2/avatar'', size = None, dimensions = None,
        thumbnail = Some ''https://example.com/v1.2/avatar''\<rparr> ] \<and>
   extractFilename versioned_path_browser ''https://example.com/v1.2/avatar'' = ''avatar'' \<and>
   getFileExtension versioned_path_browser ''https://example.com/v1.2/avatar'' = Some ''2/avatar'' \<and>
   \<not> ends_in_file_extension ''avatar.2/avatar''"
proof -
  have 1: "fst (detectMedia versioned_path_browser [] ''https://example.com/'') =
     [ \<lparr>url = ''https://example.com/v1.2/avatar'', type = image,
        filename = ''avatar.2/avatar'', size = None, dimensions = None,
        thumbnail = Some ''https://example.com/v1.2/avatar''\<rparr> ]"
    by (simp add: detectMedia_def fetch_html_def versioned_path_browser_def example_response_def
        CORS_PROXY_def extractImages_def extractVideos_def extractAudio_def
        extractCSSMedia_def image_from_img_def
        truthy_def or_else_def named_def extractFilename_def getFileExtension_def
        last_segment_def extension_pattern_def resolveUrl_def media_item_def uniqueMedia_def
        Let_def regex_eval)
  have 2: "extractFilename versioned_path_browser ''https://example.com/v1.2/avatar'' = ''avatar''"
    by (simp add: extractFilename_def versioned_path_browser_def last_segment_def or_else_def
        starts_with_def)
  have 3: "getFileExtension versioned_path_browser ''https://example.com/v1.2/avatar''
           = Some ''2/avatar''"
    by (simp add: getFileExtension_def versioned_path_browser_def extension_pattern_def regex_eval)
  have 4: "\<not> ends_in_file_extension ''avatar.2/avatar''"
    by (simp add: ends_in_file_extension_def dot_suffix_def)
  from 1 2 3 4 show ?thesis by blast
qed

section \<open>Video IDs\<close>

text \<open>
  Claim C4, as the code has it. For a page URL that contains \<^verbatim>\<open>youtube.com\<close> or
  \<^verbatim>\<open>youtu.be\<close> the detector fetches nothing and returns exactly one video item. Its
  extractor tries its four patterns in order and takes the first capture group of 10
  or 11 characters; it has no catch-all pattern, and when no pattern gives an ID the
  detection does not fail: the item is named \<^verbatim>\<open>youtube_video.mp4\<close> and has no
  thumbnail. When an ID is found it has 10 or 11 characters and names the item and
  its thumbnail. The extractor of the download path is the one that goes through a
  longer list, then the catch-all pattern, and throws when both give nothing.
\<close>

theorem detector_video_id:
  assumes "includes_str u ''youtube.com'' \<or> includes_str u ''youtu.be''"
  shows "detectMedia b log u = (handleYouTubeUrl u, log) \<and>
   (case detector_extractYouTubeId u of
      None \<Rightarrow>
        (\<forall>r\<in>set detector_patterns. \<not> accepted (capture1 (cleanUrl u) r)) \<and>
        handleYouTubeUrl u =
          [\<lparr>url = u, type = video, filename = ''youtube_video.mp4'', size = None,
            dimensions = None, thumbnail = None\<rparr>]
    | Some i \<Rightarrow>
        (length i = 10 \<or> length i = 11) \<and>
        (\<exists>k<length detector_patterns.
            capture1 (cleanUrl u) (detector_patterns ! k) = Some i \<and>
            (\<forall>j<k. \<not> accepted (capture1 (cleanUrl u) (detector_patterns ! j)))) \<and>
        handleYouTubeUrl u =
          [\<lparr>url = u, type = video, filename = ''youtube_'' @ i @ ''.mp4'', size = None,
            dimensions = None,
            thumbnail = Some (''https://img.youtube.com/vi/'' @ i @ ''/maxresdefault.jpg'')\<rparr>]) \<and>
   (case extractYouTubeId u of
      Inr i \<Rightarrow>
        (length i = 10 \<or> length i = 11) \<and>
        (first_accepted download_patterns (cleanUrl u) = Some i \<or>
         first_accepted download_patterns (cleanUrl u) = None \<and>
         capture2 (cleanUrl u) fallback_pattern = Some i)
    | Inl e \<Rightarrow>
        e = ''Could not extract YouTube ID from URL: '' @ u \<and>
        (\<forall>r\<in>set download_patterns. \<not> accepted (capture1 (cleanUrl u) r)) \<and>
        \<not> accepted (capture2 (cleanUrl u) fallback_pattern))"
proof -
  have 1: "detectMedia b log u = (handleYouTubeUrl u, log)"
    using assms by (simp add: detectMedia_def)
  have 2: "(case detector_extractYouTubeId u of
      None \<Rightarrow>
        (\<forall>r\<in>set detector_patterns. \<not> accepted (capture1 (cleanUrl u) r)) \<and>
        handleYouTubeUrl u =
          [\<lparr>url = u, type = video, filename = ''youtube_video.mp4'', size = None,
            dimensions = None, thumbnail = None\<rparr>]
    | Some i \<Rightarrow>
        (length i = 10 \<or> length i = 11) \<and>
        (\<exists>k<length detector_patterns.
            capture1 (cleanUrl u) (detector_patterns ! k) = Some i \<and>
            (\<forall>j<k. \<not> accepted (capture1 (cleanUrl u) (detector_patterns ! j)))) \<and>
        handleYouTubeUrl u =
          [\<lparr>url = u, type = video, filename = ''youtube_'' @ i @ ''.mp4'', size = None,
            dimensions = None,
            thumbnail = Some (''https://img.youtube.com/vi/'' @ i @ ''/maxresdefault.jpg'')\<rparr>])"
  proof (cases "detector_extractYouTubeId u")
    case None
    then have "\<forall>r\<in>set detector_patterns. \<not> accepted (capture1 (cleanUrl u) r)"
      using first_accepted_None[of detector_patterns "cleanUrl u"]
      by (simp add: detector_extractYouTubeId_def)
    with None handleYouTubeUrl_None[OF None] show ?thesis by simp
  next
    case (Some i)
    then have "first_accepted detector_patterns (cleanUrl u) = Some i"
      by (simp add: detector_extractYouTubeId_def)
    from first_accepted_Some[OF this] handleYouTubeUrl_Some[OF Some] Some
    show ?thesis by simp
  qed
  have 3: "(case extractYouTubeId u of
      Inr i \<Rightarrow>
        (length i = 10 \<or> length i = 11) \<and>
        (first_accepted download_patterns (cleanUrl u) = Some i \<or>
         first_accepted download_patterns (cleanUrl u) = None \<and>
         capture2 (cleanUrl u) fallback_pattern = Some i)
    | Inl e \<Rightarrow>
        e = ''Could not extract YouTube ID from URL: '' @ u \<and>
        (\<forall>r\<in>set download_patterns. \<not> accepted (capture1 (cleanUrl u) r)) \<and>
        \<not> accepted (capture2 (cleanUrl u) fallback_pattern))"
  proof (cases "first_accepted download_patterns (cleanUrl u)")
    case (Some i)
    from first_accepted_Some[OF this] Some show ?thesis
      by (simp add: extractYouTubeId_def)
  next
    case None
    note n = first_accepted_None[of download_patterns "cleanUrl u"]
    show ?thesis
    proof (cases "accepted (capture2 (cleanUrl u) fallback_pattern)")
      case True
      then obtain g where g: "capture2 (cleanUrl u) fallback_pattern = Some g" "g \<noteq> []"
        "length g = 11 \<or> length g = 10"
        by (auto simp: accepted_def split: option.splits)
      with None True show ?thesis by (auto simp: extractYouTubeId_def Let_def)
    next
      case False
      with None n show ?thesis
        by (auto simp: extractYouTubeId_def Let_def split: option.splits)
    qed
  qed
  from 1 2 3 show ?thesis by blast
qed

theorem detector_video_id_witness:
  "includes_str ''https://www.youtube.com/watch?v=abcdefghijk'' ''youtube.com'' \<and>
   detectMedia example_browser [] ''https://www.youtube.com/watch?v=abcdefghijk'' =
     ([\<lparr>url = ''https://www.youtube.com/watch?v=abcdefghijk'', type = video,
        filename = ''youtube_abcdefghijk.mp4'', size = None, dimensions = None,
        thumbnail = Some ''https://img.youtube.com/vi/abcdefghijk/maxresdefault.jpg''\<rparr>], []) \<and>
   extractYouTubeId ''https://www.youtube.com/watch?v=abcdefghijk'' = Inr ''abcdefghijk''"
proof -
  have h: "includes_str ''https://www.youtube.com/watch?v=abcdefghijk'' ''youtube.com'' \<or>
           includes_str ''https://www.youtube.com/watch?v=abcdefghijk'' ''youtu.be''"
    by (simp add: starts_with_def)
  have d: "detector_extractYouTubeId ''https://www.youtube.com/watch?v=abcdefghijk''
           = Some ''abcdefghijk''"
    by (simp add: detector_extractYouTubeId_def detector_patterns_def regex_eval)
  have e: "first_accepted download_patterns (cleanUrl ''https://www.youtube.com/watch?v=abcdefghijk'')
           = Some ''abcdefghijk''"
    by (simp add: download_patterns_def regex_eval)
  have i: "includes_str ''https://www.youtube.com/watch?v=abcdefghijk'' ''youtube.com''"
    by (simp add: starts_with_def)
  from detector_video_id[OF h, of example_browser "[]"] d e i
  show ?thesis by (simp add: extractYouTubeId_def)
qed

text \<open>
  The claim as it was stated fails on a short link with a time parameter: the
  catch-all pattern would give the ID, the detector does not try it, and the
  detection returns the placeholder item.
\<close>

theorem detector_placeholder_counterexample:
  "includes_str ''https://youtu.be/abcdefghijk?t=10'' ''youtu.be'' \<and>
   detector_extractYouTubeId ''https://youtu.be/abcdefghijk?t=10'' = None \<and>
   capture2 (cleanUrl ''https://youtu.be/abcdefghijk?t=10'') fallback_pattern
     = Some ''abcdefghijk'' \<and>
   detectMedia example_browser [] ''https://youtu.be/abcdefghijk?t=10'' =
     ([\<lparr>url = ''https://youtu.be/abcdefghijk?t=10'', type = video,
        filename = ''youtube_video.mp4'', size = None, dimensions = None,
        thumbnail = None\<rparr>], [])"
proof -
  have 1: "includes_str ''https://youtu.be/abcdefghijk?t=10'' ''youtu.be''"
    by (simp add: starts_with_def)
  have 2: "detector_extractYouTubeId ''https://youtu.be/abcdefghijk?t=10'' = None"
    by (simp add: detector_extractYouTubeId_def detector_patterns_def regex_eval)
  have 3: "capture2 (cleanUrl ''https://youtu.be/abcdefghijk?t=10'') fallback_pattern
     = Some ''abcdefghijk''"
    by (simp add: fallback_pattern_def regex_eval)
  from 1 2 3 show ?thesis
    by (simp add: detectMedia_def handleYouTubeUrl_def media_item_def truthy_def)
qed

text \<open>
  Claim C5, as the code has it. The two extractors clean the URL in the same way and
  the first four patterns of the download path are the detector's four, so an ID that
  the detector finds is the ID that the download path finds, and a URL on which the
  download path throws is a URL on which the detector returns \<^verbatim>\<open>null\<close>. The converse
  does not hold: the download path has seven more patterns and the catch-all pattern.
\<close>

theorem extractors_agree_where_detector_resolves:
  "(detector_extractYouTubeId u = Some i \<longrightarrow> extractYouTubeId u = Inr i) \<and>
   (extractYouTubeId u = Inl e \<longrightarrow> detector_extractYouTubeId u = None) \<and>
   take (length detector_patterns) download_patterns = detector_patterns"
proof -
  have split: "first_accepted download_patterns (cleanUrl u) =
     (case first_accepted detector_patterns (cleanUrl u) of
        Some i \<Rightarrow> Some i
      | None \<Rightarrow> first_accepted (drop 4 download_patterns) (cleanUrl u))"
    using first_accepted_append[of detector_patterns "drop 4 download_patterns" "cleanUrl u"]
      download_patterns_prefix by simp
  have a: "extractYouTubeId u = Inr j" if "detector_extractYouTubeId u = Some j" for j
    using that split by (simp add: detector_extractYouTubeId_def extractYouTubeId_def)
  have b: "detector_extractYouTubeId u = None" if "extractYouTubeId u = Inl e"
  proof (cases "detector_extractYouTubeId u")
    case None
    then show ?thesis .
  next
    case (Some j)
    from a[OF this] that show ?thesis by simp
  qed
  have c: "take (length detector_patterns) download_patterns = detector_patterns"
    by (simp add: download_patterns_def detector_patterns_def)
  from a b c show ?thesis by blast
qed

theorem extractors_agree_where_detector_resolves_witness:
  "detector_extractYouTubeId ''https://youtu.be/abcdefghijk'' = Some ''abcdefghijk'' \<and>
   extractYouTubeId ''https://youtu.be/abcdefghijk'' = Inr ''abcdefghijk''"
proof -
  have d: "detector_extractYouTubeId ''https://youtu.be/abcdefghijk'' = Some ''abcdefghijk''"
    by (simp add: detector_extractYouTubeId_def detector_patterns_def regex_eval)
  from extractors_agree_where_detector_resolves
         [of "''https://youtu.be/abcdefghijk''" "''abcdefghijk''" "[]"] d
  show ?thesis by blast
qed

text \<open>
  The claim as it was stated fails on a shorts URL: the detector finds no ID, the
  download path finds one.
\<close>

theorem extractors_differ_counterexample:
  "detector_extractYouTubeId ''https://www.youtube.com/shorts/abcdefghijk'' = None \<and>
   extractYouTubeId ''https://www.youtube.com/shorts/abcdefghijk'' = Inr ''abcdefghijk''"
proof -
  have 1: "detector_extractYouTubeId ''https://www.youtube.com/shorts/abcdefghijk'' = None"
    by (simp add: detector_extractYouTubeId_def detector_patterns_def regex_eval)
  have 2: "extractYouTubeId ''https://www.youtube.com/shorts/abcdefghijk'' = Inr ''abcdefghijk''"
    by (simp add: extractYouTubeId_def download_patterns_def regex_eval)
  from 1 2 show ?thesis by blast
qed

section \<open>The service chain\<close>

text \<open>
  Claim C1. \<^verbatim>\<open>downloadYouTubeVideo\<close> announces its services strictly in the order 1, 2,
  3 and stops at the first that succeeds: the services announced by a run are 1, or
  1 and 2, or 1, 2 and 3. When service 1 (the local backend) fails and service 2
  (the first web API) succeeds, the download succeeds, the last event is the success
  of service 2, and service 3 is never announced, so it is never invoked.
\<close>

theorem service_chain_short_circuit:
  "(attempts (snd (downloadYouTubeVideo b item videoId log)) = attempts log @ [1] \<or>
    attempts (snd (downloadYouTubeVideo b item videoId log)) = attempts log @ [1, 2] \<or>
    attempts (snd (downloadYouTubeVideo b item videoId log)) = attempts log @ [1, 2, 3]) \<and>
   (\<forall>e1 log1 log2.
      service1 b item (log @ [Trying 1]) = (Inl e1, log1) \<longrightarrow>
      service2 b item (log1 @ [ServiceFailed 1 e1, Trying 2]) = (Inr (), log2) \<longrightarrow>
        downloadYouTubeVideo b item videoId log = (Inr (), log2 @ [Succeeded 2]) \<and>
        attempts (snd (downloadYouTubeVideo b item videoId log)) = attempts log @ [1, 2])"
proof -
  obtain r1 l1 where s1: "service1 b item (log @ [Trying 1]) = (r1, l1)"
    by (cases "service1 b item (log @ [Trying 1])")
  have a1: "attempts l1 = attempts log @ [1]"
    using service1_attempts[of b item "log @ [Trying 1]"] s1
    by (simp add: attempts_append attempts_simps)
  have order: "attempts (snd (downloadYouTubeVideo b item videoId log)) = attempts log @ [1] \<or>
    attempts (snd (downloadYouTubeVideo b item videoId log)) = attempts log @ [1, 2] \<or>
    attempts (snd (downloadYouTubeVideo b item videoId log)) = attempts log @ [1, 2, 3]"
  proof (cases r1)
    case (Inr u)
    with s1 a1 show ?thesis
      by (simp add: downloadYouTubeVideo_unfold attempts_append attempts_simps)
  next
    case (Inl e1)
    obtain r2 l2 where s2: "service2 b item (l1 @ [ServiceFailed 1 e1, Trying 2]) = (r2, l2)"
      by (cases "service2 b item (l1 @ [ServiceFailed 1 e1, Trying 2])")
    have a2: "attempts l2 = attempts log @ [1, 2]"
      using service2_attempts[of b item "l1 @ [ServiceFailed 1 e1, Trying 2]"] s2 a1
      by (simp add: attempts_append attempts_simps)
    show ?thesis
    proof (cases r2)
      case (Inr u)
      with s1 Inl s2 a2 show ?thesis
        by (simp add: downloadYouTubeVideo_unfold attempts_append attempts_simps)
    next
      case e2: (Inl e2)
      obtain r3 l3 where s3: "service3 b item (l2 @ [ServiceFailed 2 e2, Trying 3]) = (r3, l3)"
        by (cases "service3 b item (l2 @ [ServiceFailed 2 e2, Trying 3])")
      have a3: "attempts l3 = attempts log @ [1, 2, 3]"
        using service3_attempts[of b item "l2 @ [ServiceFailed 2 e2, Trying 3]"] s3 a2
        by (simp add: attempts_append attempts_simps)
      from s1 Inl s2 e2 s3 a3 show ?thesis
        by (cases r3) (simp_all add: downloadYouTubeVideo_unfold attempts_append attempts_simps)
    qed
  qed
  have short: "downloadYouTubeVideo b item videoId log = (Inr (), log2 @ [Succeeded 2]) \<and>
        attempts (snd (downloadYouTubeVideo b item videoId log)) = attempts log @ [1, 2]"
    if t1: "service1 b item (log @ [Trying 1]) = (Inl e1, log1)"
    and t2: "service2 b item (log1 @ [ServiceFailed 1 e1, Trying 2]) = (Inr (), log2)"
    for e1 log1 log2
  proof -
    have r: "downloadYouTubeVideo b item videoId log = (Inr (), log2 @ [Succeeded 2])"
      using t1 t2 by (simp add: downloadYouTubeVideo_unfold)
    have "attempts log1 = attempts log @ [1]"
      using service1_attempts[of b item "log @ [Trying 1]"] t1
      by (simp add: attempts_append attempts_simps)
    moreover have "attempts log2 = attempts log1 @ [2]"
      using service2_attempts[of b item "log1 @ [ServiceFailed 1 e1, Trying 2]"] t2
      by (simp add: attempts_append attempts_simps)
    ultimately show ?thesis using r by (simp add: attempts_append attempts_simps)
  qed
  from order short show ?thesis by blast
qed

theorem service_chain_short_circuit_witness:
  "downloadYouTubeVideo backendless_browser
       (media_item ''https://youtu.be/abcdefghijk'' video ''clip.mp4'') ''abcdefghijk'' []
     = (Inr (),
        [ Trying 1,
          Fetch (PostJson ''/api/download-youtube''
                   [(''url'', ''https://youtu.be/abcdefghijk''), (''filename'', ''clip.mp4'')]),
          ServiceFailed 1 ''Backend download failed: yt-dlp is not installed'', Trying 2,
          Fetch (Get ''https://youtube-mp4-downloader.vercel.app/api/download?url=https://youtu.be/abcdefghijk''),
          Fetch (Get ''https://cdn.example.com/v.mp4''),
          SaveAs ''bytes'' ''clip.mp4'', Succeeded 2 ]) \<and>
   attempts (snd (downloadYouTubeVideo backendless_browser
       (media_item ''https://youtu.be/abcdefghijk'' video ''clip.mp4'') ''abcdefghijk'' [])) = [1, 2]"
proof -
  let ?item = "media_item ''https://youtu.be/abcdefghijk'' video ''clip.mp4''"
  let ?f1 = "Fetch (PostJson ''/api/download-youtube''
                   [(''url'', ''https://youtu.be/abcdefghijk''), (''filename'', ''clip.mp4'')])"
  let ?e1 = "''Backend download failed: yt-dlp is not installed''"
  let ?f2 = "Fetch (Get ''https://youtube-mp4-downloader.vercel.app/api/download?url=https://youtu.be/abcdefghijk'')"
  have 1: "service1 backendless_browser ?item ([] @ [Trying 1]) = (Inl ?e1, [Trying 1, ?f1])"
    by (simp add: backendless_browser_def service1_def Let_def media_item_def or_else_def)
  have 2: "service2 backendless_browser ?item ([Trying 1, ?f1] @ [ServiceFailed 1 ?e1, Trying 2])
           = (Inr (), [Trying 1, ?f1, ServiceFailed 1 ?e1, Trying 2, ?f2,
                       Fetch (Get ''https://cdn.example.com/v.mp4''), SaveAs ''bytes'' ''clip.mp4''])"
    by (simp add: backendless_browser_def service2_def web_service_def Let_def media_item_def
        or_else_def truthy_def)
  from service_chain_short_circuit[of backendless_browser ?item "''abcdefghijk''" "[]"] 1 2
  show ?thesis by (simp add: attempts_simps)
qed

text \<open>
  Claim C2. When all three services fail, \<^verbatim>\<open>downloadYouTubeVideo\<close> rejects with one
  error whose message is the fixed text \<open>all_failed\<close> followed by the message of the
  error of the last service; the message therefore contains that last message, and it
  contains the hint to install the command-line tool.
\<close>

theorem service_chain_exhausted:
  assumes "service1 b item (log @ [Trying 1]) = (Inl e1, log1)"
      and "service2 b item (log1 @ [ServiceFailed 1 e1, Trying 2]) = (Inl e2, log2)"
      and "service3 b item (log2 @ [ServiceFailed 2 e2, Trying 3]) = (Inl e3, log3)"
  shows "downloadYouTubeVideo b item videoId log
           = (Inl (all_failed @ e3), log3 @ [ServiceFailed 3 e3]) \<and>
         includes_str (all_failed @ e3) e3 \<and>
         includes_str (all_failed @ e3) ''please install yt-dlp (pip install yt-dlp)''"
proof -
  have r: "downloadYouTubeVideo b item videoId log
           = (Inl (all_failed @ e3), log3 @ [ServiceFailed 3 e3])"
    using assms by (simp add: downloadYouTubeVideo_unfold)
  have "all_failed = ''All YouTube download services failed. To use yt-dlp backend, ''
          @ ''please install yt-dlp (pip install yt-dlp)''
          @ '' and run the server with 'npm run dev:full'. Last error: ''"
    by (simp add: all_failed_def)
  then have "includes_str all_failed ''please install yt-dlp (pip install yt-dlp)''"
    using includes_str_iff by blast
  then have h: "includes_str (all_failed @ e3) ''please install yt-dlp (pip install yt-dlp)''"
    by (rule includes_str_appendI)
  from r h includes_str_suffix[of all_failed e3] show ?thesis by blast
qed

theorem service_chain_exhausted_witness:
  "downloadYouTubeVideo offline_browser (media_item ''https://youtu.be/abcdefghijk'' video ''clip.mp4'')
       ''abcdefghijk'' []
     = (Inl (all_failed @ ''Failed to fetch''),
        [ Trying 1,
          Fetch (PostJson ''/api/download-youtube''
                   [(''url'', ''https://youtu.be/abcdefghijk''), (''filename'', ''clip.mp4'')]),
          ServiceFailed 1 ''Failed to fetch'', Trying 2,
          Fetch (Get ''https://youtube-mp4-downloader.vercel.app/api/download?url=https://youtu.be/abcdefghijk''),
          ServiceFailed 2 ''Failed to fetch'', Trying 3,
          Fetch (Get ''https://api.vevioz.com/api/button/mp4/mp4-720?url=https://youtu.be/abcdefghijk''),
          ServiceFailed 3 ''Failed to fetch'' ]) \<and>
   includes_str (all_failed @ ''Failed to fetch'') ''Failed to fetch'' \<and>
   includes_str (all_failed @ ''Failed to fetch'') ''please install yt-dlp (pip install yt-dlp)''"
proof -
  let ?item = "media_item ''https://youtu.be/abcdefghijk'' video ''clip.mp4''"
  let ?f1 = "Fetch (PostJson ''/api/download-youtube''
                   [(''url'', ''https://youtu.be/abcdefghijk''), (''filename'', ''clip.mp4'')])"
  let ?f2 = "Fetch (Get ''https://youtube-mp4-downloader.vercel.app/api/download?url=https://youtu.be/abcdefghijk'')"
  let ?f3 = "Fetch (Get ''https://api.vevioz.com/api/button/mp4/mp4-720?url=https://youtu.be/abcdefghijk'')"
  have 1: "service1 offline_browser ?item ([] @ [Trying 1]) = (Inl ''Failed to fetch'', [Trying 1, ?f1])"
    by (simp add: offline_eval media_item_def)
  have 2: "service2 offline_browser ?item ([Trying 1, ?f1] @ [ServiceFailed 1 ''Failed to fetch'', Trying 2])
           = (Inl ''Failed to fetch'', [Trying 1, ?f1, ServiceFailed 1 ''Failed to fetch'', Trying 2, ?f2])"
    by (simp add: offline_eval media_item_def)
  have 3: "service3 offline_browser ?item
             ([Trying 1, ?f1, ServiceFailed 1 ''Failed to fetch'', Trying 2, ?f2]
              @ [ServiceFailed 2 ''Failed to fetch'', Trying 3])
           = (Inl ''Failed to fetch'',
              [Trying 1, ?f1, ServiceFailed 1 ''Failed to fetch'', Trying 2, ?f2,
               ServiceFailed 2 ''Failed to fetch'', Trying 3, ?f3])"
    by (simp add: offline_eval media_item_def)
  from service_chain_exhausted[OF 1 2 3, of "''abcdefghijk''"] show ?thesis by simp
qed

section \<open>The coordinator\<close>

text \<open>
  Claim C6, as the code has it. \<^verbatim>\<open>downloadMedia\<close> takes exactly one of three branches,
  decided by two tests made in this order, and both tests look for a substring
  anywhere in the URL. First: the item is a video and its URL contains \<^verbatim>\<open>blob:\<close>;
  then the URL is fetched as a blob, and a failure of that fetch is the failure of
  the item, after the one request and with no other attempt. Otherwise second: the
  URL contains \<^verbatim>\<open>youtube.com\<close>, \<^verbatim>\<open>youtu.be\<close> or \<^verbatim>\<open>vimeo.com\<close>; then the embedded-video
  path runs. Otherwise the direct-media path runs. The three guards below exclude
  each other and one of them holds.
\<close>

theorem downloadMedia_dispatch:
  "(type item = video \<and> includes_str (url item) ''blob:'' \<longrightarrow>
      downloadMedia b item log =
        (case downloadBlobVideo b item log of
           (Inr u, log') \<Rightarrow> (Inr (), log')
         | (Inl e, log') \<Rightarrow> (Inl (''Failed to download '' @ filename item), log')) \<and>
      (\<forall>e log'. downloadBlobVideo b item log = (Inl e, log') \<longrightarrow>
         downloadMedia b item log =
           (Inl (''Failed to download '' @ filename item), log @ [Fetch (Get (url item))]))) \<and>
   (\<not> (type item = video \<and> includes_str (url item) ''blob:'') \<and>
    (includes_str (url item) ''youtube.com'' \<or> includes_str (url item) ''youtu.be''
     \<or> includes_str (url item) ''vimeo.com'') \<longrightarrow>
      downloadMedia b item log =
        (case downloadEmbeddedVideo b item log of
           (Inr u, log') \<Rightarrow> (Inr (), log')
         | (Inl e, log') \<Rightarrow> (Inl (''Failed to download '' @ filename item), log'))) \<and>
   (\<not> (type item = video \<and> includes_str (url item) ''blob:'') \<and>
    \<not> (includes_str (url item) ''youtube.com'' \<or> includes_str (url item) ''youtu.be''
       \<or> includes_str (url item) ''vimeo.com'') \<longrightarrow>
      downloadMedia b item log =
        (case downloadDirectMedia b item log of
           (Inr u, log') \<Rightarrow> (Inr (), log')
         | (Inl e, log') \<Rightarrow> (Inl (''Failed to download '' @ filename item), log')))"
proof -
  have fatal: "downloadMedia b item log =
           (Inl (''Failed to download '' @ filename item), log @ [Fetch (Get (url item))])"
    if "type item = video \<and> includes_str (url item) ''blob:''"
       "downloadBlobVideo b item log = (Inl e, log')" for e log'
    using that downloadBlobVideo_failure[OF that(2)] by (simp add: downloadMedia_blob)
  have 1: "type item = video \<and> includes_str (url item) ''blob:'' \<longrightarrow>
      downloadMedia b item log =
        (case downloadBlobVideo b item log of
           (Inr u, log') \<Rightarrow> (Inr (), log')
         | (Inl e, log') \<Rightarrow> (Inl (''Failed to download '' @ filename item), log')) \<and>
      (\<forall>e log'. downloadBlobVideo b item log = (Inl e, log') \<longrightarrow>
         downloadMedia b item log =
           (Inl (''Failed to download '' @ filename item), log @ [Fetch (Get (url item))]))"
    using fatal downloadMedia_blob by blast
  have 2: "\<not> (type item = video \<and> includes_str (url item) ''blob:'') \<and>
    (includes_str (url item) ''youtube.com'' \<or> includes_str (url item) ''youtu.be''
     \<or> includes_str (url item) ''vimeo.com'') \<longrightarrow>
      downloadMedia b item log =
        (case downloadEmbeddedVideo b item log of
           (Inr u, log') \<Rightarrow> (Inr (), log')
         | (Inl e, log') \<Rightarrow> (Inl (''Failed to download '' @ filename item), log'))"
    by (simp add: downloadMedia_def)
  have 3: "\<not> (type item = video \<and> includes_str (url item) ''blob:'') \<and>
    \<not> (includes_str (url item) ''youtube.com'' \<or> includes_str (url item) ''youtu.be''
       \<or> includes_str (url item) ''vimeo.com'') \<longrightarrow>
      downloadMedia b item log =
        (case downloadDirectMedia b item log of
           (Inr u, log') \<Rightarrow> (Inr (), log')
         | (Inl e, log') \<Rightarrow> (Inl (''Failed to download '' @ filename item), log'))"
    by (simp add: downloadMedia_def)
  from 1 2 3 show ?thesis by blast
qed

theorem downloadMedia_dispatch_witness:
  "type (media_item ''blob:https://example.com/7f3a'' video ''clip.mp4'') = video \<and>
   includes_str (url (media_item ''blob:https://example.com/7f3a'' video ''clip.mp4'')) ''blob:'' \<and>
   downloadMedia offline_browser (media_item ''blob:https://example.com/7f3a'' video ''clip.mp4'') []
     = (Inl ''Failed to download clip.mp4'', [Fetch (Get ''blob:https://example.com/7f3a'')])"
proof -
  let ?item = "media_item ''blob:https://example.com/7f3a'' video ''clip.mp4''"
  have g: "type ?item = video \<and> includes_str (url ?item) ''blob:''"
    by (simp add: media_item_def starts_with_def)
  have f: "downloadBlobVideo offline_browser ?item []
           = (Inl ''Failed to fetch'', [Fetch (Get ''blob:https://example.com/7f3a'')])"
    by (simp add: downloadBlobVideo_def offline_browser_def media_item_def)
  from downloadMedia_dispatch[of ?item offline_browser "[]"] g
  have "\<forall>e log'. downloadBlobVideo offline_browser ?item [] = (Inl e, log') \<longrightarrow>
         downloadMedia offline_browser ?item [] =
           (Inl (''Failed to download '' @ filename ?item), [] @ [Fetch (Get (url ?item))])"
    by blast
  with f have "downloadMedia offline_browser ?item [] =
           (Inl (''Failed to download '' @ filename ?item), [] @ [Fetch (Get (url ?item))])"
    by blast
  then have "downloadMedia offline_browser ?item []
     = (Inl ''Failed to download clip.mp4'', [Fetch (Get ''blob:https://example.com/7f3a'')])"
    by (simp add: media_item_def)
  with g show ?thesis by blast
qed

text \<open>
  The claim as it was stated tests the host and the scheme of the URL. The code
  does not: an image whose host is \<^verbatim>\<open>www.google.com\<close> and whose query names
  \<^verbatim>\<open>youtube.com\<close> takes the embedded-video path, where it fails before any request
  because no video ID is found, although the direct-media path would have resolved;
  and a video under \<^verbatim>\<open>https://example.com\<close> whose path contains \<^verbatim>\<open>blob:\<close> is fetched as
  a blob, with the failure of the one request fatal.
\<close>

theorem platform_name_outside_host_counterexample:
  "downloadMedia offline_browser
       (media_item ''https://www.google.com/s2/favicons?domain=youtube.com'' image ''favicons.jpg'') []
     = (Inl ''Failed to download favicons.jpg'', []) \<and>
   downloadEmbeddedVideo offline_browser
       (media_item ''https://www.google.com/s2/favicons?domain=youtube.com'' image ''favicons.jpg'') []
     = (Inl ''Could not extract YouTube ID from URL: https://www.google.com/s2/favicons?domain=youtube.com'', []) \<and>
   downloadDirectMedia offline_browser
       (media_item ''https://www.google.com/s2/favicons?domain=youtube.com'' image ''favicons.jpg'') []
     = (Inr (),
        [ Fetch (Get ''https://api.allorigins.win/raw?url=https://www.google.com/s2/favicons?domain=youtube.com''),
          Fetch (GetNoCors ''https://www.google.com/s2/favicons?domain=youtube.com''),
          AnchorClick ''https://www.google.com/s2/favicons?domain=youtube.com'' ''favicons.jpg'' ]) \<and>
   downloadMedia offline_browser
       (media_item ''https://example.com/media/blob:7f3a.mp4'' video ''7f3a.mp4'') []
     = (Inl ''Failed to download 7f3a.mp4'',
        [Fetch (Get ''https://example.com/media/blob:7f3a.mp4'')])"
proof -
  let ?u = "''https://www.google.com/s2/favicons?domain=youtube.com''"
  let ?item = "media_item ?u image ''favicons.jpg''"
  have x: "extractYouTubeId ?u = Inl (''Could not extract YouTube ID from URL: '' @ ?u)"
    by (simp add: extractYouTubeId_def download_patterns_def fallback_pattern_def regex_eval)
  have i: "includes_str ?u ''youtube.com''"
    by (simp add: starts_with_def)
  have e: "downloadEmbeddedVideo offline_browser ?item []
           = (Inl (''Could not extract YouTube ID from URL: '' @ ?u), [])"
    using x i by (simp add: downloadEmbeddedVideo_def media_item_def)
  have m: "downloadMedia offline_browser ?item [] = (Inl ''Failed to download favicons.jpg'', [])"
    using e i by (simp add: downloadMedia_def media_item_def)
  have d: "downloadDirectMedia offline_browser ?item [] =
     (Inr (), [ Fetch (Get (''https://api.allorigins.win/raw?url='' @ ?u)),
                Fetch (GetNoCors ?u), AnchorClick ?u ''favicons.jpg'' ])"
    by (simp add: downloadDirectMedia_def direct_fallback_def createDownloadLink_def
        offline_browser_def media_item_def Let_def)
  have b: "downloadMedia offline_browser
       (media_item ''https://example.com/media/blob:7f3a.mp4'' video ''7f3a.mp4'') []
     = (Inl ''Failed to download 7f3a.mp4'',
        [Fetch (Get ''https://example.com/media/blob:7f3a.mp4'')])"
    by (simp add: downloadMedia_def downloadBlobVideo_def offline_browser_def media_item_def
        starts_with_def)
  from m e d b show ?thesis by simp
qed

text \<open>
  Claim C10. The direct-media path never reports a failure: whatever the network
  answers and whether or not the anchor element works, \<^verbatim>\<open>downloadDirectMedia\<close>
  resolves, and so does \<^verbatim>\<open>downloadMedia\<close> for every item it sends down this path.
  A success says nothing about saved bytes: without network the path still
  succeeds, after two failed requests and a click on a link, and nothing is saved.
\<close>

theorem direct_media_never_fails:
  "fst (downloadDirectMedia b item log) = Inr () \<and>
   (\<not> (type item = video \<and> includes_str (url item) ''blob:'') \<and>
    \<not> (includes_str (url item) ''youtube.com'' \<or> includes_str (url item) ''youtu.be''
       \<or> includes_str (url item) ''vimeo.com'') \<longrightarrow>
      fst (downloadMedia b item log) = Inr ()) \<and>
   downloadDirectMedia offline_browser item [] =
     (Inr (), [ Fetch (Get (''https://api.allorigins.win/raw?url='' @ url item)),
                Fetch (GetNoCors (url item)),
                AnchorClick (url item) (filename item) ])"
proof -
  have 1: "fst (downloadDirectMedia b item log) = Inr ()" by (rule downloadDirectMedia_ok)
  have 2: "fst (downloadMedia b item log) = Inr ()"
    if "\<not> (type item = video \<and> includes_str (url item) ''blob:'') \<and>
        \<not> (includes_str (url item) ''youtube.com'' \<or> includes_str (url item) ''youtu.be''
           \<or> includes_str (url item) ''vimeo.com'')"
  proof -
    obtain r l where d: "downloadDirectMedia b item log = (r, l)"
      by (cases "downloadDirectMedia b item log")
    with 1 have "r = Inr ()" by simp
    with d that show ?thesis by (auto simp: downloadMedia_def)
  qed
  have 3: "downloadDirectMedia offline_browser item [] =
     (Inr (), [ Fetch (Get (''https://api.allorigins.win/raw?url='' @ url item)),
                Fetch (GetNoCors (url item)),
                AnchorClick (url item) (filename item) ])"
    by (simp add: downloadDirectMedia_def direct_fallback_def createDownloadLink_def
        offline_browser_def Let_def)
  from 1 2 3 show ?thesis by blast
qed

theorem direct_media_never_fails_witness:
  "downloadMedia offline_browser (media_item ''https://example.com/a.png'' image ''a.png'') []
     = (Inr (), [ Fetch (Get ''https://api.allorigins.win/raw?url=https://example.com/a.png''),
                  Fetch (GetNoCors ''https://example.com/a.png''),
                  AnchorClick ''https://example.com/a.png'' ''a.png'' ])"
proof -
  let ?item = "media_item ''https://example.com/a.png'' image ''a.png''"
  have g: "\<not> (type ?item = video \<and> includes_str (url ?item) ''blob:'') \<and>
        \<not> (includes_str (url ?item) ''youtube.com'' \<or> includes_str (url ?item) ''youtu.be''
           \<or> includes_str (url ?item) ''vimeo.com'')"
    by (simp add: media_item_def starts_with_def)
  from direct_media_never_fails[of offline_browser ?item "[]"] g
  have "fst (downloadMedia offline_browser ?item []) = Inr ()"
    and d: "downloadDirectMedia offline_browser ?item [] =
     (Inr (), [ Fetch (Get (''https://api.allorigins.win/raw?url='' @ url ?item)),
                Fetch (GetNoCors (url ?item)),
                AnchorClick (url ?item) (filename ?item) ])"
    by blast+
  from g d have "downloadMedia offline_browser ?item [] =
     (Inr (), [ Fetch (Get (''https://api.allorigins.win/raw?url='' @ url ?item)),
                Fetch (GetNoCors (url ?item)),
                AnchorClick (url ?item) (filename ?item) ])"
    by (auto simp: downloadMedia_def)
  then show ?thesis by (simp add: media_item_def)
qed

section \<open>Bulk download\<close>



section \<open>The backend\<close>

text \<open>
  Claim C8. The five quality values are the own keys of \<^verbatim>\<open>qualityFormats\<close> and map to
  five distinct, non-empty format selectors. The validation of the handler, however,
  lets through a quality value outside this set when it names a property that the
  table inherits: with \<^verbatim>\<open>constructor\<close> as quality the request is not answered with
  400; the version check of the tool is spawned, and on a machine without the tool
  the answer is 500. (A value that is neither an own key nor an inherited property
  is answered with 400 before anything is spawned: \<open>unknown_quality_rejected\<close>.)
\<close>

theorem inherited_quality_passes_validation:
  "map fst qualityFormats_own = [''maximum'', ''high'', ''medium'', ''low'', ''audio''] \<and>
   distinct (map snd qualityFormats_own) \<and>
   [] \<notin> set (map snd qualityFormats_own) \<and>
   ''constructor'' \<notin> set (map fst qualityFormats_own) \<and>
   post_download_youtube machine_without_tool
       \<lparr>req_url = Some ''https://youtu.be/abcdefghijk'', req_filename = None,
        req_quality = Some ''constructor''\<rparr> \<lparr>dirs = [], did = []\<rparr>
     = \<lparr>dirs = [],
        did = [ Spawn ''yt-dlp'' [JString ''--version''],
                Reply 500 [(''error'',
                  ''yt-dlp is not installed. Please install it with: pip install yt-dlp'')] ]\<rparr>"
  by (simp add: server_eval machine_without_tool_def)

text \<open>
  Claim C9. The temporary directory is removed when the stream ends or fails, when
  the tool produced no file, when it exits with a code other than 0 and when the
  child emits \<^verbatim>\<open>error\<close> (\<open>tempdir_removed_on_handled_paths\<close>). It is not removed
  when \<^verbatim>\<open>spawn\<close> throws after the directory was made: the \<^verbatim>\<open>catch\<close> block answers 500
  and the directory stays on disk.
\<close>

theorem tempdir_left_behind:
  "post_download_youtube machine_refusing_arguments
       \<lparr>req_url = Some (''https://youtu.be/abcdefghijk'' @ [CHR 0x00]), req_filename = None,
        req_quality = None\<rparr> \<lparr>dirs = [], did = []\<rparr>
     = \<lparr>dirs = [''/tmp/ytdl-Ab12Cd''],
        did = [ Spawn ''yt-dlp'' [JString ''--version''],
                Spawn ''yt-dlp''
                  (ytDlpArgs ''high'' ''/tmp/ytdl-Ab12Cd/%(title)s.%(ext)s''
                     (''https://youtu.be/abcdefghijk'' @ [CHR 0x00])),
                Reply 500 [(''error'', ''Internal server error''),
                           (''details'', ''The argument 'args[11]' must be a string without null bytes'')] ]\<rparr>"
  by (simp add: post_download_youtube_def download_def checkYtDlp_def reply_def
      qualityFormats_def qualityFormats_own_def js_truthy_def truthy_def or_else_def Let_def
      machine_refusing_arguments_def)

end
